theory Spec2Isabelle
  imports Main "HOL-Library.Multiset"
begin

section \<open>pdfiler: images to one multi-page PDF\<close>

text \<open>
  A shallow embedding of \<^verbatim>\<open>src/pdfiler.py\<close>. The script is a linear pipeline over the
  file system and the Pillow image library. The file system is an explicit \<open>world\<close>
  that every operation reads and the writing operations return updated. The library
  functions the script calls (\<^verbatim>\<open>os.path\<close>, \<^verbatim>\<open>PIL.Image\<close>) are not part of the repository:
  they are the fields of a record \<open>library\<close>, so every theorem holds for whatever these
  functions compute. Exceptions and \<^verbatim>\<open>sys.exit\<close> are values.
\<close>

subsection \<open>Data\<close>

type_synonym path = string

text \<open>
  The exception classes the script distinguishes. \<^verbatim>\<open>is_image_file\<close> catches
  \<^verbatim>\<open>(UnidentifiedImageError, IOError)\<close>; the other handlers catch \<^verbatim>\<open>Exception\<close>.
  \<open>OtherError\<close> stands for every subclass of \<^verbatim>\<open>Exception\<close> that is neither of the two
  (Pillow raises \<^verbatim>\<open>SyntaxError\<close>, \<^verbatim>\<open>ValueError\<close> and \<^verbatim>\<open>DecompressionBombError\<close>, Python
  raises \<^verbatim>\<open>IndexError\<close>).
\<close>

datatype exn = UnidentifiedImageError | IOError | OtherError

text \<open>
  An in-memory image object: the attributes the script reads (\<^verbatim>\<open>img.format\<close>,
  \<^verbatim>\<open>img.mode\<close>) and an opaque payload standing for the pixel data.
\<close>

record image =
  format :: "string option"
  mode :: string
  payload :: "nat list"

text \<open>
  What a regular file holds: bytes, the document written by the assembler (its pages,
  in order, and its size in bytes), or the remains of a write that failed.
\<close>

datatype content = Bytes "nat list" | PdfDocument "image list" nat | Partial

record regular_file =
  mtime :: int
  content :: content

datatype access = Reading | Writing | Deleting

datatype stream = Stdout | Stderr

text \<open>
  One constructor for each \<^verbatim>\<open>click.echo\<close> of the script, with the values its f-string
  interpolates; the comment gives the source line. The elapsed time of line 163 is
  not modelled, and the file size is kept in bytes.
\<close>

datatype message =
    InputDirNeedsFiles                \<comment> \<open>line 89\<close>
  | InputDirAbsolutePath              \<comment> \<open>line 94\<close>
  | FoundInDirectory path nat         \<comment> \<open>line 100\<close>
  | FoundInCurrentDirectory nat       \<comment> \<open>line 108\<close>
  | NoValidImages                     \<comment> \<open>lines 113 and 132\<close>
  | FileNotFound path                 \<comment> \<open>line 120\<close>
  | NotAnImage path                   \<comment> \<open>line 124\<close>
  | FilesAfterCheck nat               \<comment> \<open>line 129\<close>
  | DryRunHeader                      \<comment> \<open>line 136\<close>
  | DryRunLine nat path               \<comment> \<open>line 138: index, three dashes, path\<close>
  | PageLine nat path                 \<comment> \<open>line 147\<close>
  | NothingProcessed                  \<comment> \<open>line 150\<close>
  | OutputDirMissing path             \<comment> \<open>line 156\<close>
  | Created path nat                  \<comment> \<open>line 163\<close>
  | SourcesRemoved                    \<comment> \<open>line 167\<close>
  | SavePdfError exn                  \<comment> \<open>line 169\<close>
  | ProcessImageError path exn        \<comment> \<open>line 45\<close>

text \<open>
  The world: the working directory, the regular files and the directories (each with
  its \<^verbatim>\<open>os.listdir\<close> result) by resolved path, the accesses the operating system
  refuses, the time of day (the modification time of a file written now), and
  everything echoed so far.
\<close>

record world =
  cwd :: path
  files :: "path \<Rightarrow> regular_file option"
  dirs :: "path \<Rightarrow> string list option"
  denied :: "access \<Rightarrow> path \<Rightarrow> bool"
  clock :: int
  console :: "(stream \<times> message) list"

text \<open>
  The library functions, as parameters. \<open>os_abspath\<close> takes the working directory
  first. \<open>pil_decode\<close> is what \<^verbatim>\<open>Image.open\<close> makes of a byte sequence, \<open>pil_verify\<close>
  the exception \<^verbatim>\<open>img.verify()\<close> raises if any, \<open>pil_to_rgb\<close> the pixel conversion of
  \<^verbatim>\<open>img.convert('RGB')\<close>, \<open>pil_encode_jpeg\<close> the JPEG writer at a quality, and
  \<open>pil_encode_pdf\<close> the PDF writer, which returns the size of the document in bytes.
\<close>

record library =
  os_isabs :: "path \<Rightarrow> bool"
  os_join :: "path \<Rightarrow> path \<Rightarrow> path"
  os_abspath :: "path \<Rightarrow> path \<Rightarrow> path"
  os_dirname :: "path \<Rightarrow> path"
  pil_decode :: "nat list \<Rightarrow> exn + image"
  pil_verify :: "image \<Rightarrow> exn option"
  pil_to_rgb :: "image \<Rightarrow> exn + nat list"
  pil_encode_jpeg :: "image \<Rightarrow> int \<Rightarrow> exn + nat list"
  pil_encode_pdf :: "image list \<Rightarrow> exn + nat"

text \<open>How a run ends: \<^verbatim>\<open>sys.exit(n)\<close> (a normal return is status 0) or an exception
  that no handler caught.\<close>

datatype outcome = Exit nat | Uncaught exn

subsection \<open>Operating system and library calls\<close>

definition echo :: "stream \<Rightarrow> message \<Rightarrow> world \<Rightarrow> world" where
  "echo s m w = w\<lparr>console := console w @ [(s, m)]\<rparr>"

definition echo_if :: "bool \<Rightarrow> stream \<Rightarrow> message \<Rightarrow> world \<Rightarrow> world" where
  "echo_if b s m w = (if b then echo s m w else w)"

definition resolve :: "library \<Rightarrow> world \<Rightarrow> path \<Rightarrow> path" where
  "resolve L w p = os_abspath L (cwd w) p"

definition isfile :: "library \<Rightarrow> world \<Rightarrow> path \<Rightarrow> bool" where
  "isfile L w p = (files w (resolve L w p) \<noteq> None)"

definition exists_path :: "library \<Rightarrow> world \<Rightarrow> path \<Rightarrow> bool" where
  "exists_path L w p =
     (files w (resolve L w p) \<noteq> None \<or> dirs w (resolve L w p) \<noteq> None)"

definition listdir :: "library \<Rightarrow> world \<Rightarrow> path \<Rightarrow> exn + string list" where
  "listdir L w d =
     (case dirs w (resolve L w d) of
        None \<Rightarrow> Inl IOError
      | Some entries \<Rightarrow>
          if denied w Reading (resolve L w d) then Inl IOError else Inr entries)"

definition getmtime :: "library \<Rightarrow> world \<Rightarrow> path \<Rightarrow> exn + int" where
  "getmtime L w p =
     (case files w (resolve L w p) of None \<Rightarrow> Inl IOError | Some f \<Rightarrow> Inr (mtime f))"

text \<open>
  \<^verbatim>\<open>Image.open(path)\<close>: opening a path that is no regular file, or one that may not be
  read, raises an \<^verbatim>\<open>OSError\<close>; Pillow has no reader for PDF, and does not identify a
  partial file.
\<close>

definition Image_open :: "library \<Rightarrow> world \<Rightarrow> path \<Rightarrow> exn + image" where
  "Image_open L w p =
     (case files w (resolve L w p) of
        None \<Rightarrow> Inl IOError
      | Some f \<Rightarrow>
          if denied w Reading (resolve L w p) then Inl IOError
          else (case content f of
                  Bytes b \<Rightarrow> pil_decode L b
                | PdfDocument pages n \<Rightarrow> Inl UnidentifiedImageError
                | Partial \<Rightarrow> Inl UnidentifiedImageError))"

subsection \<open>The validator (lines 10 to 22)\<close>

text \<open>
  The handler catches \<^verbatim>\<open>UnidentifiedImageError\<close> and \<^verbatim>\<open>IOError\<close> and nothing else.
\<close>

definition caught_by_validator :: "exn \<Rightarrow> bool" where
  "caught_by_validator e = (e = UnidentifiedImageError \<or> e = IOError)"

definition is_image_file_body :: "library \<Rightarrow> world \<Rightarrow> path \<Rightarrow> exn + bool" where
  "is_image_file_body L w p =
     (case Image_open L w p of
        Inl e \<Rightarrow> Inl e
      | Inr img \<Rightarrow>
          (case pil_verify L img of
             Some e \<Rightarrow> Inl e
           | None \<Rightarrow>
               (case Image_open L w p of
                  Inl e \<Rightarrow> Inl e
                | Inr img2 \<Rightarrow>
                    Inr (format img2 \<noteq> Some ''GIF'' \<and> format img2 \<noteq> None))))"

definition is_image_file :: "library \<Rightarrow> world \<Rightarrow> path \<Rightarrow> exn + bool" where
  "is_image_file L w p =
     (case is_image_file_body L w p of
        Inl e \<Rightarrow> if caught_by_validator e then Inr False else Inl e
      | Inr b \<Rightarrow> Inr b)"

subsection \<open>The transcoder (lines 25 to 46)\<close>

text \<open>
  \<^verbatim>\<open>img.convert('RGB')\<close> returns a new image of the mode it names; only the pixel
  conversion, which may raise, is the library's.
\<close>

definition convert_RGB :: "library \<Rightarrow> image \<Rightarrow> exn + image" where
  "convert_RGB L img =
     (case pil_to_rgb L img of
        Inl e \<Rightarrow> Inl e
      | Inr px \<Rightarrow> Inr \<lparr>format = None, mode = ''RGB'', payload = px\<rparr>)"

text \<open>Lines 36 to 40: save as JPEG into a buffer, open the buffer.\<close>

definition reencode :: "library \<Rightarrow> image \<Rightarrow> int \<Rightarrow> exn + image" where
  "reencode L img q =
     (case pil_encode_jpeg L img q of
        Inl e \<Rightarrow> Inl e
      | Inr buffer \<Rightarrow> pil_decode L buffer)"

definition process_image_body :: "library \<Rightarrow> world \<Rightarrow> path \<Rightarrow> int \<Rightarrow> exn + image" where
  "process_image_body L w p q =
     (case Image_open L w p of
        Inl e \<Rightarrow> Inl e
      | Inr img \<Rightarrow>
          (case (if mode img = ''RGBA'' \<or> mode img = ''P'' then convert_RGB L img
                 else Inr img) of
             Inl e \<Rightarrow> Inl e
           | Inr img1 \<Rightarrow>
               (case (if q \<noteq> 0 then reencode L img1 q else Inr img1) of
                  Inl e \<Rightarrow> Inl e
                | Inr img2 \<Rightarrow>
                    if mode img2 \<noteq> ''RGB'' then convert_RGB L img2 else Inr img2)))"

text \<open>The handler of lines 44 to 46 catches every exception, reports it and exits.\<close>

definition process_image ::
  "library \<Rightarrow> path \<Rightarrow> int \<Rightarrow> world \<Rightarrow> (outcome + image) \<times> world" where
  "process_image L p q w =
     (case process_image_body L w p q of
        Inl e \<Rightarrow> (Inl (Exit 1), echo Stderr (ProcessImageError p e) w)
      | Inr img \<Rightarrow> (Inr img, w))"

subsection \<open>The directory scan (lines 49 to 56)\<close>

text \<open>Line 54: the entries of the listing that the validator accepts, in listing order.\<close>

fun select_images :: "library \<Rightarrow> world \<Rightarrow> path \<Rightarrow> string list \<Rightarrow> exn + string list" where
  "select_images L w d [] = Inr []"
| "select_images L w d (f # fs) =
     (case is_image_file L w (os_join L d f) of
        Inl e \<Rightarrow> Inl e
      | Inr b \<Rightarrow>
          (case select_images L w d fs of
             Inl e \<Rightarrow> Inl e
           | Inr r \<Rightarrow> Inr (if b then f # r else r)))"

text \<open>
  Line 55: \<^verbatim>\<open>list.sort(key=...)\<close> computes the key of every element first, then sorts
  stably by key.
\<close>

fun sort_keys :: "library \<Rightarrow> world \<Rightarrow> path \<Rightarrow> string list \<Rightarrow> exn + (int \<times> string) list" where
  "sort_keys L w d [] = Inr []"
| "sort_keys L w d (f # fs) =
     (case getmtime L w (os_join L d f) of
        Inl e \<Rightarrow> Inl e
      | Inr t \<Rightarrow>
          (case sort_keys L w d fs of
             Inl e \<Rightarrow> Inl e
           | Inr r \<Rightarrow> Inr ((t, f) # r)))"

definition get_images_from_directory :: "library \<Rightarrow> world \<Rightarrow> path \<Rightarrow> exn + path list" where
  "get_images_from_directory L w d =
     (case listdir L w d of
        Inl e \<Rightarrow> Inl e
      | Inr entries \<Rightarrow>
          (case select_images L w d entries of
             Inl e \<Rightarrow> Inl e
           | Inr fs \<Rightarrow>
               (case sort_keys L w d fs of
                  Inl e \<Rightarrow> Inl e
                | Inr keyed \<Rightarrow> Inr (map (\<lambda>(t, f). os_join L d f) (sort_key fst keyed)))))"

subsection \<open>The command line (lines 59 to 70)\<close>

text \<open>
  The parameters of \<^verbatim>\<open>main\<close>, as click passes them (\<open>output_path\<close> is the parameter
  \<^verbatim>\<open>output\<close>): \<open>input_dir\<close> is \<^verbatim>\<open>None\<close> without
  \<^verbatim>\<open>-d\<close>.
\<close>

record args =
  images :: "string list"
  input_dir :: "path option"
  quality :: int
  output_path :: path
  dry_run :: bool
  remove_source :: bool
  verbose :: bool

subsection \<open>The collector (lines 87 to 114)\<close>

text \<open>Lines 98 to 100 and 106 to 108: scan a directory, report the count if verbose.
  An exception of the scan has no handler.\<close>

definition scan ::
  "library \<Rightarrow> bool \<Rightarrow> path \<Rightarrow> (nat \<Rightarrow> message) \<Rightarrow> world \<Rightarrow> (outcome + path list) \<times> world" where
  "scan L v d found w =
     (case get_images_from_directory L w d of
        Inl e \<Rightarrow> (Inl (Uncaught e), w)
      | Inr imgs \<Rightarrow> (Inr imgs, echo_if v Stdout (found (length imgs)) w))"

text \<open>Lines 88 to 103, with \<^verbatim>\<open>-d\<close>.\<close>

definition collect_in_dir ::
  "library \<Rightarrow> args \<Rightarrow> path \<Rightarrow> world \<Rightarrow> (outcome + path list) \<times> world" where
  "collect_in_dir L a d w =
     (case images a of
        [] \<Rightarrow> (Inl (Exit 1), echo Stderr InputDirNeedsFiles w)
      | first # rest \<Rightarrow>
          if list_ex (os_isabs L) (first # rest)
          then (Inl (Exit 1), echo Stderr InputDirAbsolutePath w)
          else if first = ''auto-stamp''
          then scan L (verbose a) d (FoundInDirectory d) w
          else (Inr (map (os_join L d) (first # rest)), w))"

text \<open>Lines 105 to 110, without \<^verbatim>\<open>-d\<close>.\<close>

definition collect_plain :: "library \<Rightarrow> args \<Rightarrow> world \<Rightarrow> (outcome + path list) \<times> world" where
  "collect_plain L a w =
     (case images a of
        [] \<Rightarrow> (Inr [], w)
      | first # rest \<Rightarrow>
          if first = ''auto-stamp''
          then scan L (verbose a) (cwd w) FoundInCurrentDirectory w
          else (Inr (map (resolve L w) (filter (isfile L w) (first # rest))), w))"

text \<open>Line 87: \<^verbatim>\<open>if input_dir:\<close> is false for \<^verbatim>\<open>None\<close> and for the empty string.
  Lines 112 to 114: an empty list ends the run.\<close>

definition collect :: "library \<Rightarrow> args \<Rightarrow> world \<Rightarrow> (outcome + path list) \<times> world" where
  "collect L a w =
     (case (case input_dir a of
              None \<Rightarrow> collect_plain L a w
            | Some d \<Rightarrow> if d \<noteq> [] then collect_in_dir L a d w else collect_plain L a w) of
        (Inl out, w') \<Rightarrow> (Inl out, w')
      | (Inr imgs, w') \<Rightarrow>
          if imgs = [] then (Inl (Exit 1), echo Stderr NoValidImages w')
          else (Inr imgs, w'))"

subsection \<open>The validation filter (lines 116 to 133)\<close>

fun validate_loop ::
  "library \<Rightarrow> bool \<Rightarrow> path list \<Rightarrow> path list \<Rightarrow> world \<Rightarrow> (outcome + path list) \<times> world" where
  "validate_loop L v [] valid_images w = (Inr valid_images, w)"
| "validate_loop L v (img_path # ps) valid_images w =
     (if \<not> isfile L w img_path
      then validate_loop L v ps valid_images (echo_if v Stderr (FileNotFound img_path) w)
      else (case is_image_file L w img_path of
              Inl e \<Rightarrow> (Inl (Uncaught e), w)
            | Inr b \<Rightarrow>
                if \<not> b
                then validate_loop L v ps valid_images
                       (echo_if v Stderr (NotAnImage img_path) w)
                else validate_loop L v ps (valid_images @ [img_path]) w))"

definition validate ::
  "library \<Rightarrow> bool \<Rightarrow> path list \<Rightarrow> world \<Rightarrow> (outcome + path list) \<times> world" where
  "validate L v imgs w =
     (case validate_loop L v imgs [] w of
        (Inl out, w') \<Rightarrow> (Inl out, w')
      | (Inr valid_images, w') \<Rightarrow>
          if valid_images = []
          then (Inl (Exit 1),
                echo Stderr NoValidImages
                  (echo_if v Stdout (FilesAfterCheck (length valid_images)) w'))
          else (Inr valid_images,
                echo_if v Stdout (FilesAfterCheck (length valid_images)) w'))"

subsection \<open>The dry run (lines 135 to 139)\<close>

fun dry_run_lines :: "nat \<Rightarrow> path list \<Rightarrow> world \<Rightarrow> world" where
  "dry_run_lines idx [] w = w"
| "dry_run_lines idx (file_path # ps) w =
     dry_run_lines (Suc idx) ps (echo Stdout (DryRunLine idx file_path) w)"

definition dry_run_listing :: "path list \<Rightarrow> world \<Rightarrow> world" where
  "dry_run_listing valid_images w = dry_run_lines 1 valid_images (echo Stdout DryRunHeader w)"

subsection \<open>Transcoding every validated path (lines 141 to 151)\<close>

text \<open>
  Line 144, \<^verbatim>\<open>if img:\<close>. The value is an instance of Pillow's \<^verbatim>\<open>Image\<close>, a class that
  defines neither \<^verbatim>\<open>__bool__\<close> nor \<^verbatim>\<open>__len__\<close>: it is true.
\<close>

definition truthy :: "image \<Rightarrow> bool" where
  "truthy img = True"

fun transcode_loop ::
  "library \<Rightarrow> int \<Rightarrow> bool \<Rightarrow> nat \<Rightarrow> path list \<Rightarrow> image list \<Rightarrow> world
   \<Rightarrow> (outcome + image list) \<times> world" where
  "transcode_loop L q v idx [] processed_images w = (Inr processed_images, w)"
| "transcode_loop L q v idx (file_path # ps) processed_images w =
     (case process_image L file_path q w of
        (Inl out, w') \<Rightarrow> (Inl out, w')
      | (Inr img, w') \<Rightarrow>
          if truthy img
          then transcode_loop L q v (Suc idx) ps (processed_images @ [img])
                 (echo_if v Stdout (PageLine idx file_path) w')
          else transcode_loop L q v (Suc idx) ps processed_images w')"

definition transcode ::
  "library \<Rightarrow> args \<Rightarrow> path list \<Rightarrow> world \<Rightarrow> (outcome + image list) \<times> world" where
  "transcode L a valid_images w =
     (case transcode_loop L (quality a) (verbose a) 1 valid_images [] w of
        (Inl out, w') \<Rightarrow> (Inl out, w')
      | (Inr processed_images, w') \<Rightarrow>
          if processed_images = []
          then (Inl (Exit 1), echo Stderr NothingProcessed w')
          else (Inr processed_images, w'))"

subsection \<open>The assembler and the source removal (lines 153 to 170)\<close>

text \<open>
  Line 160, \<^verbatim>\<open>save(output, "PDF", save_all=True, append_images=...)\<close>. The file is
  opened for writing first: that raises when the path is a directory, its parent is
  no directory, or the system refuses. An exception of the writer leaves a partial
  file. Otherwise the file holds the document.
\<close>

definition save_pdf :: "library \<Rightarrow> path \<Rightarrow> image list \<Rightarrow> world \<Rightarrow> exn option \<times> world" where
  "save_pdf L out pages w =
     (let r = resolve L w out in
      if dirs w r \<noteq> None \<or> dirs w (resolve L w (os_dirname L r)) = None \<or>
         denied w Writing r
      then (Some IOError, w)
      else (case pil_encode_pdf L pages of
              Inl e \<Rightarrow>
                (Some e, w\<lparr>files := (files w)(r \<mapsto> \<lparr>mtime = clock w, content = Partial\<rparr>)\<rparr>)
            | Inr n \<Rightarrow>
                (None, w\<lparr>files := (files w)
                         (r \<mapsto> \<lparr>mtime = clock w, content = PdfDocument pages n\<rparr>)\<rparr>)))"

definition getsize :: "library \<Rightarrow> world \<Rightarrow> path \<Rightarrow> exn + nat" where
  "getsize L w p =
     (case files w (resolve L w p) of
        None \<Rightarrow> Inl IOError
      | Some f \<Rightarrow>
          Inr (case content f of Bytes b \<Rightarrow> length b | PdfDocument pages n \<Rightarrow> n | Partial \<Rightarrow> 0))"

text \<open>\<^verbatim>\<open>os.remove\<close> raises when the path is no regular file or the system refuses.\<close>

definition os_remove :: "library \<Rightarrow> path \<Rightarrow> world \<Rightarrow> exn + world" where
  "os_remove L p w =
     (let r = resolve L w p in
      if files w r = None \<or> denied w Deleting r then Inl IOError
      else Inr (w\<lparr>files := (files w)(r := None)\<rparr>))"

text \<open>Lines 165 and 166.\<close>

fun remove_all :: "library \<Rightarrow> path list \<Rightarrow> world \<Rightarrow> exn option \<times> world" where
  "remove_all L [] w = (None, w)"
| "remove_all L (img # ps) w =
     (case os_remove L img w of
        Inl e \<Rightarrow> (Some e, w)
      | Inr w' \<Rightarrow> remove_all L ps w')"

text \<open>
  The body of the \<^verbatim>\<open>try\<close> (lines 160 to 167): the exception it raises, if any, and
  the world it leaves. \<^verbatim>\<open>processed_images[0]\<close> of an empty list raises \<^verbatim>\<open>IndexError\<close>.
\<close>

definition write_and_remove ::
  "library \<Rightarrow> args \<Rightarrow> path list \<Rightarrow> image list \<Rightarrow> world \<Rightarrow> exn option \<times> world" where
  "write_and_remove L a valid_images processed_images w =
     (case processed_images of
        [] \<Rightarrow> (Some OtherError, w)
      | first # rest \<Rightarrow>
          (case save_pdf L (output_path a) (first # rest) w of
             (Some e, w1) \<Rightarrow> (Some e, w1)
           | (None, w1) \<Rightarrow>
               (case getsize L w1 (output_path a) of
                  Inl e \<Rightarrow> (Some e, w1)
                | Inr file_size \<Rightarrow>
                    if remove_source a
                    then (case remove_all L valid_images
                                 (echo Stdout (Created (output_path a) file_size) w1) of
                            (Some e, w2) \<Rightarrow> (Some e, w2)
                          | (None, w2) \<Rightarrow> (None, echo Stdout SourcesRemoved w2))
                    else (None, echo Stdout (Created (output_path a) file_size) w1))))"

definition assemble ::
  "library \<Rightarrow> args \<Rightarrow> path list \<Rightarrow> image list \<Rightarrow> world \<Rightarrow> outcome \<times> world" where
  "assemble L a valid_images processed_images w =
     (let output_dir = os_dirname L (resolve L w (output_path a)) in
      if output_dir \<noteq> [] \<and> \<not> exists_path L w output_dir
      then (Exit 1, echo Stderr (OutputDirMissing output_dir) w)
      else (case write_and_remove L a valid_images processed_images w of
              (Some e, w') \<Rightarrow> (Exit 1, echo Stderr (SavePdfError e) w')
            | (None, w') \<Rightarrow> (Exit 0, w')))"

subsection \<open>The whole run (lines 70 to 170)\<close>

text \<open>
  Everything before the assembler: the run has ended (\<open>Inl\<close>), or it reaches the
  assembler with the validated paths and the image objects.
\<close>

definition before_assembly ::
  "library \<Rightarrow> args \<Rightarrow> world \<Rightarrow> (outcome + path list \<times> image list) \<times> world" where
  "before_assembly L a w =
     (case collect L a w of
        (Inl out, w1) \<Rightarrow> (Inl out, w1)
      | (Inr imgs, w1) \<Rightarrow>
          (case validate L (verbose a) imgs w1 of
             (Inl out, w2) \<Rightarrow> (Inl out, w2)
           | (Inr valid_images, w2) \<Rightarrow>
               if dry_run a then (Inl (Exit 0), dry_run_listing valid_images w2)
               else (case transcode L a valid_images w2 of
                       (Inl out, w3) \<Rightarrow> (Inl out, w3)
                     | (Inr processed_images, w3) \<Rightarrow>
                         (Inr (valid_images, processed_images), w3))))"

definition main :: "library \<Rightarrow> args \<Rightarrow> world \<Rightarrow> outcome \<times> world" where
  "main L a w =
     (case before_assembly L a w of
        (Inl out, w') \<Rightarrow> (out, w')
      | (Inr (valid_images, processed_images), w') \<Rightarrow>
          assemble L a valid_images processed_images w')"

subsection \<open>A concrete library and file system\<close>

text \<open>
  For closed instances: the POSIX path functions on paths that are already normal
  (no \<^verbatim>\<open>.\<close>, \<^verbatim>\<open>..\<close> or doubled separator), and a small codec. Its files are two bytes,
  a format tag and a mode tag, then data; a data byte 255 is a checksum that
  \<^verbatim>\<open>verify\<close> reports as Pillow reports a broken PNG chunk, with a \<^verbatim>\<open>SyntaxError\<close>. Its JPEG
  writer takes the modes Pillow's takes and raises \<^verbatim>\<open>OSError\<close> on any other.
\<close>

definition posix_isabs :: "path \<Rightarrow> bool" where
  "posix_isabs p = (case p of [] \<Rightarrow> False | c # cs \<Rightarrow> c = CHR ''/'')"

definition posix_join :: "path \<Rightarrow> path \<Rightarrow> path" where
  "posix_join a b =
     (if posix_isabs b then b
      else if a = [] \<or> last a = CHR ''/'' then a @ b
      else a @ ''/'' @ b)"

definition posix_abspath :: "path \<Rightarrow> path \<Rightarrow> path" where
  "posix_abspath dir p = (if posix_isabs p then p else posix_join dir p)"

definition posix_dirname :: "path \<Rightarrow> path" where
  "posix_dirname p =
     (let head = rev (dropWhile (\<lambda>c. c \<noteq> CHR ''/'') (rev p)) in
      if head \<noteq> [] \<and> \<not> list_all (\<lambda>c. c = CHR ''/'') head
      then rev (dropWhile (\<lambda>c. c = CHR ''/'') (rev head))
      else head)"

definition sample_format :: "nat \<Rightarrow> string option" where
  "sample_format tag =
     (if tag = 1 then Some ''PNG'' else if tag = 2 then Some ''JPEG''
      else if tag = 3 then Some ''GIF'' else None)"

definition sample_mode :: "nat \<Rightarrow> string" where
  "sample_mode tag =
     (if tag = 1 then ''RGBA'' else if tag = 2 then ''P'' else if tag = 3 then ''L''
      else if tag = 4 then ''LA'' else ''RGB'')"

definition sample_decode :: "nat list \<Rightarrow> exn + image" where
  "sample_decode bytes =
     (case bytes of
        f # m # px \<Rightarrow>
          if 0 < f \<and> f \<le> 4
          then Inr \<lparr>format = sample_format f, mode = sample_mode m, payload = px\<rparr>
          else Inl UnidentifiedImageError
      | _ \<Rightarrow> Inl UnidentifiedImageError)"

definition sample_verify :: "image \<Rightarrow> exn option" where
  "sample_verify img = (if 255 \<in> set (payload img) then Some OtherError else None)"

definition jpeg_modes :: "string list" where
  "jpeg_modes = [''1'', ''L'', ''RGB'', ''RGBX'', ''CMYK'', ''YCbCr'']"

definition sample_encode_jpeg :: "image \<Rightarrow> int \<Rightarrow> exn + nat list" where
  "sample_encode_jpeg img q =
     (if mode img \<in> set jpeg_modes
      then Inr (2 # (if mode img = ''L'' \<or> mode img = ''1'' then 3 else 0) # payload img)
      else Inl IOError)"

definition sample_library :: library where
  "sample_library =
     \<lparr>os_isabs = posix_isabs, os_join = posix_join, os_abspath = posix_abspath,
      os_dirname = posix_dirname, pil_decode = sample_decode, pil_verify = sample_verify,
      pil_to_rgb = (\<lambda>img. Inr (payload img)),
      pil_encode_jpeg = sample_encode_jpeg,
      pil_encode_pdf = (\<lambda>pages. Inr (length pages))\<rparr>"

text \<open>
  A working directory \<^verbatim>\<open>/w\<close> with a PNG with an alpha channel, a JPEG, a GIF, a
  plain PNG and an empty file, and a directory \<^verbatim>\<open>/x\<close> with a grey PNG with an alpha channel (mode
  \<^verbatim>\<open>LA\<close>) and a PNG with a bad checksum.
\<close>

definition sample_files :: "path \<Rightarrow> regular_file option" where
  "sample_files =
     [''/w/a.png'' \<mapsto> \<lparr>mtime = 30, content = Bytes [1, 1, 7]\<rparr>,
      ''/w/b.jpg'' \<mapsto> \<lparr>mtime = 10, content = Bytes [2, 0, 8]\<rparr>,
      ''/w/c.gif'' \<mapsto> \<lparr>mtime = 20, content = Bytes [3, 2, 9]\<rparr>,
      ''/w/g.png'' \<mapsto> \<lparr>mtime = 15, content = Bytes [1, 0, 5]\<rparr>,
      ''/w/notes.txt'' \<mapsto> \<lparr>mtime = 5, content = Bytes []\<rparr>,
      ''/x/d.png'' \<mapsto> \<lparr>mtime = 40, content = Bytes [1, 4, 6]\<rparr>,
      ''/x/e.png'' \<mapsto> \<lparr>mtime = 50, content = Bytes [1, 0, 255]\<rparr>]"

definition sample_dirs :: "path \<Rightarrow> string list option" where
  "sample_dirs =
     [''/'' \<mapsto> [''w'', ''x''],
      ''/w'' \<mapsto> [''a.png'', ''b.jpg'', ''c.gif'', ''g.png'', ''notes.txt''],
      ''/x'' \<mapsto> [''d.png'', ''e.png'']]"

definition sample_world :: world where
  "sample_world =
     \<lparr>cwd = ''/w'', files = sample_files, dirs = sample_dirs,
      denied = (\<lambda>a p. False), clock = 100, console = []\<rparr>"

definition sample_args :: args where
  "sample_args =
     \<lparr>images = [''a.png'', ''b.jpg''], input_dir = None, quality = 80,
      output_path = ''/w/out.pdf'', dry_run = False, remove_source = False,
      verbose = False\<rparr>"

text \<open>The sample world with one file that the system refuses to delete.\<close>

definition locked_world :: "path \<Rightarrow> world" where
  "locked_world p = sample_world\<lparr>denied := (\<lambda>k r. k = Deleting \<and> r = p)\<rparr>"

subsection \<open>Vocabulary of the properties\<close>

text \<open>
  A path passes the filter of lines 118 to 126 when it is a regular file that the
  validator accepts, and is dropped when it is no regular file or the validator
  returns false. The third case is an exception of the validator.
\<close>

definition accepted :: "library \<Rightarrow> world \<Rightarrow> path \<Rightarrow> bool" where
  "accepted L w p = (isfile L w p \<and> is_image_file L w p = Inr True)"

definition rejected :: "library \<Rightarrow> world \<Rightarrow> path \<Rightarrow> bool" where
  "rejected L w p = (\<not> isfile L w p \<or> is_image_file L w p = Inr False)"

text \<open>The diagnostic of a dropped path (lines 120 and 124).\<close>

definition diagnostic :: "library \<Rightarrow> world \<Rightarrow> path \<Rightarrow> (stream \<times> message) list" where
  "diagnostic L w p =
     (if \<not> isfile L w p then [(Stderr, FileNotFound p)]
      else if is_image_file L w p = Inr False then [(Stderr, NotAnImage p)]
      else [])"

definition diagnostics ::
  "library \<Rightarrow> world \<Rightarrow> bool \<Rightarrow> path list \<Rightarrow> (stream \<times> message) list" where
  "diagnostics L w v ps = (if v then concat (map (diagnostic L w) ps) else [])"

text \<open>The lines \<open>idx\<close>, \<open>idx + 1\<close>, ... of a listing, one for each path.\<close>

fun indexed_lines :: "(nat \<Rightarrow> path \<Rightarrow> message) \<Rightarrow> nat \<Rightarrow> path list \<Rightarrow> (stream \<times> message) list" where
  "indexed_lines line idx [] = []"
| "indexed_lines line idx (p # ps) = (Stdout, line idx p) # indexed_lines line (Suc idx) ps"

text \<open>What lines 128 to 133 echo after the loop, given the paths that passed.\<close>

definition after_check :: "bool \<Rightarrow> path list \<Rightarrow> (stream \<times> message) list" where
  "after_check v valid =
     (if v then [(Stdout, FilesAfterCheck (length valid))] else []) @
     (if valid = [] then [(Stderr, NoValidImages)] else [])"

text \<open>Two worlds that differ in the console at most.\<close>

definition echoed_only :: "world \<Rightarrow> world \<Rightarrow> bool" where
  "echoed_only w w' = (w'\<lparr>console := console w\<rparr> = w)"

text \<open>What the loop of lines 142 to 147 echoes for the paths it transcoded.\<close>

definition page_lines :: "bool \<Rightarrow> nat \<Rightarrow> path list \<Rightarrow> (stream \<times> message) list" where
  "page_lines v idx ps = (if v then indexed_lines PageLine idx ps else [])"

text \<open>
  The collector's result when it scans the directory \<open>d\<close>: the scan's exception, or
  the paths found, the count echoed if verbose, and the exit of line 114 if none was
  found.
\<close>

definition scanned ::
  "library \<Rightarrow> bool \<Rightarrow> path \<Rightarrow> (nat \<Rightarrow> message) \<Rightarrow> world \<Rightarrow> (outcome + path list) \<times> world" where
  "scanned L v d found w =
     (case get_images_from_directory L w d of
        Inl e \<Rightarrow> (Inl (Uncaught e), w)
      | Inr ps \<Rightarrow>
          (if ps = [] then Inl (Exit 1) else Inr ps,
           w\<lparr>console := console w @ (if v then [(Stdout, found (length ps))] else []) @
                (if ps = [] then [(Stderr, NoValidImages)] else [])\<rparr>))"

text \<open>
  The claim about the transcoder speaks of a color model that includes an alpha
  channel or a palette. Of Pillow's modes these are \<^verbatim>\<open>RGBA\<close>, \<^verbatim>\<open>LA\<close>, \<^verbatim>\<open>PA\<close>, \<^verbatim>\<open>RGBa\<close>
  and \<^verbatim>\<open>La\<close> (alpha) and \<^verbatim>\<open>P\<close> and \<^verbatim>\<open>PA\<close> (palette); line 32 tests for two of them.
\<close>

definition has_alpha_or_palette :: "string \<Rightarrow> bool" where
  "has_alpha_or_palette m = (m \<in> set [''RGBA'', ''LA'', ''PA'', ''RGBa'', ''La'', ''P''])"

section \<open>Properties\<close>

subsection \<open>Echoing changes nothing that is read\<close>

lemma console_update_resolve [simp]: "resolve L (w\<lparr>console := c\<rparr>) p = resolve L w p"
  by (simp add: resolve_def)

lemma console_update_reads [simp]:
  "isfile L (w\<lparr>console := c\<rparr>) p = isfile L w p"
  "exists_path L (w\<lparr>console := c\<rparr>) p = exists_path L w p"
  "listdir L (w\<lparr>console := c\<rparr>) p = listdir L w p"
  "getmtime L (w\<lparr>console := c\<rparr>) p = getmtime L w p"
  "Image_open L (w\<lparr>console := c\<rparr>) p = Image_open L w p"
  by (simp_all add: isfile_def exists_path_def listdir_def getmtime_def Image_open_def
      cong: option.case_cong)

lemma console_update_body [simp]:
  "is_image_file_body L (w\<lparr>console := c\<rparr>) p = is_image_file_body L w p"
  "process_image_body L (w\<lparr>console := c\<rparr>) p q = process_image_body L w p q"
  by (simp_all add: is_image_file_body_def process_image_body_def
      cong: option.case_cong sum.case_cong)

lemma console_update_validator [simp]:
  "is_image_file L (w\<lparr>console := c\<rparr>) p = is_image_file L w p"
  by (simp add: is_image_file_def)

lemma echo_console: "echo s m (w\<lparr>console := c\<rparr>) = w\<lparr>console := c @ [(s, m)]\<rparr>"
  by (simp add: echo_def)

lemma echo_if_console:
  "echo_if b s m (w\<lparr>console := c\<rparr>) = w\<lparr>console := c @ (if b then [(s, m)] else [])\<rparr>"
  by (simp add: echo_if_def echo_def)

lemma console_same [simp]: "w\<lparr>console := console w\<rparr> = w"
  by simp

subsection \<open>The validator\<close>

lemma is_image_file_cases:
  "is_image_file L w p = Inr True \<or> is_image_file L w p = Inr False \<or>
   is_image_file L w p = Inl OtherError"
  by (cases "is_image_file_body L w p"; simp add: is_image_file_def caught_by_validator_def;
      metis exn.exhaust)

lemmas sample_defs =
  sample_world_def sample_files_def sample_dirs_def sample_library_def posix_abspath_def
  posix_isabs_def posix_join_def posix_dirname_def sample_decode_def sample_format_def
  sample_mode_def sample_verify_def sample_encode_jpeg_def jpeg_modes_def sample_args_def

lemmas validator_defs =
  is_image_file_def is_image_file_body_def Image_open_def caught_by_validator_def
  resolve_def isfile_def

text \<open>
  Claim C3: for every path the validator returns a boolean and lets no exception
  escape; a file that fails integrity verification is rejected. The \<^verbatim>\<open>try\<close> of lines
  15 to 22 is there to turn a failure to open or verify into \<^verbatim>\<open>False\<close>, but its
  handler names two exception classes only, so an exception of any other class
  leaves the function. Here the integrity check of a PNG with a bad checksum raises
  one (Pillow raises \<^verbatim>\<open>SyntaxError\<close>), and the validator does not return; a truncated
  PNG, for which Pillow raises \<^verbatim>\<open>OSError\<close>, is rejected.
\<close>

theorem is_image_file_exception_escapes:
  "is_image_file sample_library sample_world ''/x/e.png'' = Inl OtherError"
  by (simp add: validator_defs sample_defs)

text \<open>
  What the validator does on every path: it returns a boolean or propagates an
  exception that is neither \<^verbatim>\<open>UnidentifiedImageError\<close> nor \<^verbatim>\<open>IOError\<close>, and it
  propagates one exactly when opening or verifying the file raised it. A file that
  fails to decode or to verify with one of the two caught classes (a file of zero
  bytes is one that Pillow does not identify), that decodes as GIF or with no format,
  that is no regular file or may not be read, is rejected: the result is false.
\<close>

theorem is_image_file_rejects:
  "(is_image_file L w p = Inr True \<or> is_image_file L w p = Inr False \<or>
    is_image_file L w p = Inl OtherError)
   \<and> (is_image_file L w p = Inl OtherError \<longleftrightarrow>
        Image_open L w p = Inl OtherError \<or>
        (\<exists>img. Image_open L w p = Inr img \<and> pil_verify L img = Some OtherError))
   \<and> (\<forall>e. caught_by_validator e \<and> Image_open L w p = Inl e \<longrightarrow>
          is_image_file L w p = Inr False)
   \<and> (\<forall>img e. caught_by_validator e \<and> Image_open L w p = Inr img \<and>
          pil_verify L img = Some e \<longrightarrow> is_image_file L w p = Inr False)
   \<and> (\<forall>img. Image_open L w p = Inr img \<and> pil_verify L img = None \<longrightarrow>
          is_image_file L w p = Inr (format img \<noteq> Some ''GIF'' \<and> format img \<noteq> None))
   \<and> (\<not> isfile L w p \<or> denied w Reading (resolve L w p) \<longrightarrow>
          is_image_file L w p = Inr False)"
proof (intro conjI allI impI)
  show "is_image_file L w p = Inr True \<or> is_image_file L w p = Inr False \<or>
    is_image_file L w p = Inl OtherError"
    by (rule is_image_file_cases)
next
  show "is_image_file L w p = Inl OtherError \<longleftrightarrow>
        Image_open L w p = Inl OtherError \<or>
        (\<exists>img. Image_open L w p = Inr img \<and> pil_verify L img = Some OtherError)"
    by (auto simp: is_image_file_def is_image_file_body_def caught_by_validator_def
        split: sum.splits option.splits if_splits)
next
  fix e assume "caught_by_validator e \<and> Image_open L w p = Inl e"
  then show "is_image_file L w p = Inr False"
    by (simp add: is_image_file_def is_image_file_body_def)
next
  fix img e
  assume "caught_by_validator e \<and> Image_open L w p = Inr img \<and> pil_verify L img = Some e"
  then show "is_image_file L w p = Inr False"
    by (simp add: is_image_file_def is_image_file_body_def)
next
  fix img assume "Image_open L w p = Inr img \<and> pil_verify L img = None"
  then show "is_image_file L w p = Inr (format img \<noteq> Some ''GIF'' \<and> format img \<noteq> None)"
    by (simp add: is_image_file_def is_image_file_body_def)
next
  assume "\<not> isfile L w p \<or> denied w Reading (resolve L w p)"
  then have "Image_open L w p = Inl IOError"
    by (auto simp: Image_open_def isfile_def split: option.splits)
  then show "is_image_file L w p = Inr False"
    by (simp add: is_image_file_def is_image_file_body_def caught_by_validator_def)
qed

text \<open>An empty file, a GIF, a missing file and a PNG.\<close>

theorem is_image_file_rejects_witness:
  "is_image_file sample_library sample_world ''/w/notes.txt'' = Inr False
   \<and> is_image_file sample_library sample_world ''/w/c.gif'' = Inr False
   \<and> is_image_file sample_library sample_world ''/w/missing.png'' = Inr False
   \<and> is_image_file sample_library sample_world ''/w/a.png'' = Inr True"
proof -
  have empty: "caught_by_validator UnidentifiedImageError \<and>
      Image_open sample_library sample_world ''/w/notes.txt'' = Inl UnidentifiedImageError"
    by (simp add: validator_defs sample_defs)
  have gif: "Image_open sample_library sample_world ''/w/c.gif'' =
      Inr \<lparr>format = Some ''GIF'', mode = ''P'', payload = [9]\<rparr> \<and>
      pil_verify sample_library \<lparr>format = Some ''GIF'', mode = ''P'', payload = [9]\<rparr> = None"
    by (simp add: validator_defs sample_defs)
  have missing: "\<not> isfile sample_library sample_world ''/w/missing.png''"
    by (simp add: validator_defs sample_defs)
  have png: "Image_open sample_library sample_world ''/w/a.png'' =
      Inr \<lparr>format = Some ''PNG'', mode = ''RGBA'', payload = [7]\<rparr> \<and>
      pil_verify sample_library \<lparr>format = Some ''PNG'', mode = ''RGBA'', payload = [7]\<rparr> = None"
    by (simp add: validator_defs sample_defs)
  from is_image_file_rejects[of sample_library sample_world "''/w/notes.txt''"] empty
  have 1: "is_image_file sample_library sample_world ''/w/notes.txt'' = Inr False" by blast
  from is_image_file_rejects[of sample_library sample_world "''/w/c.gif''"] gif
  have 2: "is_image_file sample_library sample_world ''/w/c.gif'' = Inr False" by fastforce
  from is_image_file_rejects[of sample_library sample_world "''/w/missing.png''"] missing
  have 3: "is_image_file sample_library sample_world ''/w/missing.png'' = Inr False" by blast
  from is_image_file_rejects[of sample_library sample_world "''/w/a.png''"] png
  have 4: "is_image_file sample_library sample_world ''/w/a.png'' = Inr True" by fastforce
  from 1 2 3 4 show ?thesis by simp
qed

subsection \<open>The validation filter\<close>

lemmas vocabulary_defs = accepted_def rejected_def diagnostics_def diagnostic_def after_check_def

lemma validate_loop_all_decided:
  "list_all (\<lambda>p. rejected L w p \<or> accepted L w p) ps \<Longrightarrow>
   validate_loop L v ps acc (w\<lparr>console := c\<rparr>) =
     (Inr (acc @ filter (accepted L w) ps), w\<lparr>console := c @ diagnostics L w v ps\<rparr>)"
proof (induction ps arbitrary: acc c)
  case Nil
  then show ?case by (simp add: diagnostics_def)
next
  case (Cons p ps)
  then show ?case
    by (auto simp: diagnostics_def diagnostic_def accepted_def rejected_def echo_if_console)
qed

lemma validate_loop_undecided:
  "\<not> list_all (\<lambda>p. rejected L w p \<or> accepted L w p) ps \<Longrightarrow>
   \<exists>c'. validate_loop L v ps acc (w\<lparr>console := c\<rparr>) =
          (Inl (Uncaught OtherError), w\<lparr>console := c'\<rparr>)"
proof (induction ps arbitrary: acc c)
  case Nil
  then show ?case by simp
next
  case (Cons p ps)
  show ?case
  proof (cases "rejected L w p \<or> accepted L w p")
    case True
    with Cons.prems have rest: "\<not> list_all (\<lambda>p. rejected L w p \<or> accepted L w p) ps" by simp
    from True Cons.IH[OF rest] show ?thesis
      by (auto simp: accepted_def rejected_def echo_if_console)
  next
    case False
    then have "isfile L w p" and "is_image_file L w p = Inl OtherError"
      using is_image_file_cases[of L w p] by (auto simp: accepted_def rejected_def)
    then show ?thesis by auto
  qed
qed

lemma validate_all_decided:
  assumes "list_all (\<lambda>p. rejected L w p \<or> accepted L w p) imgs"
  shows "validate L v imgs (w\<lparr>console := c\<rparr>) =
     (if filter (accepted L w) imgs = [] then Inl (Exit 1) else Inr (filter (accepted L w) imgs),
      w\<lparr>console := c @ diagnostics L w v imgs @ after_check v (filter (accepted L w) imgs)\<rparr>)"
  using validate_loop_all_decided[OF assms, of v "[]" c]
  by (simp add: validate_def after_check_def echo_if_console echo_console)

lemma validate_undecided:
  assumes "\<not> list_all (\<lambda>p. rejected L w p \<or> accepted L w p) imgs"
  shows "\<exists>c'. validate L v imgs (w\<lparr>console := c\<rparr>) = (Inl (Uncaught OtherError), w\<lparr>console := c'\<rparr>)"
  using validate_loop_undecided[OF assms, of v "[]" c]
  by (auto simp add: validate_def)

lemma rejected_not_accepted: "rejected L w p \<Longrightarrow> \<not> accepted L w p"
  by (auto simp: rejected_def accepted_def)

lemma all_rejected_iff:
  "list_all (rejected L w) ps \<longleftrightarrow>
   list_all (\<lambda>p. rejected L w p \<or> accepted L w p) ps \<and> filter (accepted L w) ps = []"
  by (induction ps) (auto simp: rejected_not_accepted)

text \<open>
  The filter when the validator returns on every path: a path that fails the
  existence check or the validation is dropped and the loop goes on, with a
  diagnostic exactly when verbose is set (the paths that pass are the accepted ones,
  in their order, and the console gains the diagnostics of the dropped ones if
  verbose and none if not); and the run ends at this stage with \<^verbatim>\<open>sys.exit\<close>, and
  then with status 1, exactly when every path was dropped.
\<close>

theorem validate_drops_rejected:
  "(list_all (\<lambda>p. rejected L w p \<or> accepted L w p) imgs \<longrightarrow>
      validate L v imgs w =
        (if filter (accepted L w) imgs = [] then Inl (Exit 1)
         else Inr (filter (accepted L w) imgs),
         w\<lparr>console := console w @ diagnostics L w v imgs @
              after_check v (filter (accepted L w) imgs)\<rparr>))
   \<and> ((\<exists>w'. validate L v imgs w = (Inl (Exit n), w')) \<longleftrightarrow>
        n = 1 \<and> list_all (rejected L w) imgs)"
proof (intro conjI impI)
  assume "list_all (\<lambda>p. rejected L w p \<or> accepted L w p) imgs"
  from validate_all_decided[OF this, of v "console w"]
  show "validate L v imgs w =
        (if filter (accepted L w) imgs = [] then Inl (Exit 1)
         else Inr (filter (accepted L w) imgs),
         w\<lparr>console := console w @ diagnostics L w v imgs @
              after_check v (filter (accepted L w) imgs)\<rparr>)"
    by simp
next
  show "(\<exists>w'. validate L v imgs w = (Inl (Exit n), w')) \<longleftrightarrow>
        n = 1 \<and> list_all (rejected L w) imgs"
  proof (cases "list_all (\<lambda>p. rejected L w p \<or> accepted L w p) imgs")
    case True
    from validate_all_decided[OF True, of v "console w"] True show ?thesis
      by (auto simp: all_rejected_iff)
  next
    case False
    from validate_undecided[OF False, of v "console w"] False show ?thesis
      by (auto simp: all_rejected_iff)
  qed
qed

text \<open>Four paths of which two are dropped, verbose and not, and two paths both dropped.\<close>

theorem validate_drops_rejected_witness:
  "validate sample_library True [''/w/a.png'', ''/w/c.gif'', ''/w/nope.png'', ''/w/b.jpg'']
     sample_world =
     (Inr [''/w/a.png'', ''/w/b.jpg''],
      sample_world\<lparr>console :=
        [(Stderr, NotAnImage ''/w/c.gif''), (Stderr, FileNotFound ''/w/nope.png''),
         (Stdout, FilesAfterCheck 2)]\<rparr>)
   \<and> validate sample_library False [''/w/a.png'', ''/w/c.gif'', ''/w/nope.png'', ''/w/b.jpg'']
     sample_world = (Inr [''/w/a.png'', ''/w/b.jpg''], sample_world)
   \<and> (\<exists>w'. validate sample_library False [''/w/c.gif'', ''/w/nope.png''] sample_world =
          (Inl (Exit 1), w'))"
proof -
  have a: "accepted sample_library sample_world ''/w/a.png''"
    and b: "accepted sample_library sample_world ''/w/b.jpg''"
    and c: "rejected sample_library sample_world ''/w/c.gif''"
    and n: "rejected sample_library sample_world ''/w/nope.png''"
    by (simp_all add: vocabulary_defs validator_defs sample_defs)
  have c': "\<not> accepted sample_library sample_world ''/w/c.gif''"
    and n': "\<not> accepted sample_library sample_world ''/w/nope.png''"
    using c n by (simp_all add: rejected_not_accepted)
  have dc: "diagnostic sample_library sample_world ''/w/c.gif'' = [(Stderr, NotAnImage ''/w/c.gif'')]"
    and dn: "diagnostic sample_library sample_world ''/w/nope.png'' = [(Stderr, FileNotFound ''/w/nope.png'')]"
    and da: "diagnostic sample_library sample_world ''/w/a.png'' = []"
    and db: "diagnostic sample_library sample_world ''/w/b.jpg'' = []"
    by (simp_all add: vocabulary_defs validator_defs sample_defs)
  have empty: "console sample_world = []" by (simp add: sample_world_def)
  from validate_drops_rejected
         [of sample_library sample_world
             "[''/w/a.png'', ''/w/c.gif'', ''/w/nope.png'', ''/w/b.jpg'']" True]
  have 1: "validate sample_library True [''/w/a.png'', ''/w/c.gif'', ''/w/nope.png'', ''/w/b.jpg'']
     sample_world =
     (Inr [''/w/a.png'', ''/w/b.jpg''],
      sample_world\<lparr>console :=
        [(Stderr, NotAnImage ''/w/c.gif''), (Stderr, FileNotFound ''/w/nope.png''),
         (Stdout, FilesAfterCheck 2)]\<rparr>)"
    using a b c n c' n' by (simp add: diagnostics_def after_check_def da db dc dn empty)
  from validate_drops_rejected
         [of sample_library sample_world
             "[''/w/a.png'', ''/w/c.gif'', ''/w/nope.png'', ''/w/b.jpg'']" False]
  have 2: "validate sample_library False [''/w/a.png'', ''/w/c.gif'', ''/w/nope.png'', ''/w/b.jpg'']
     sample_world = (Inr [''/w/a.png'', ''/w/b.jpg''], sample_world)"
    using a b c n c' n' by (simp add: diagnostics_def after_check_def empty)
  from validate_drops_rejected
         [of sample_library sample_world "[''/w/c.gif'', ''/w/nope.png'']" False 1]
  have 3: "\<exists>w'. validate sample_library False [''/w/c.gif'', ''/w/nope.png''] sample_world =
          (Inl (Exit 1), w')"
    using c n c' n' by simp
  from 1 2 3 show ?thesis by blast
qed

subsection \<open>The usage error of an absolute path with an input directory\<close>

text \<open>
  Claim C7: if \<^verbatim>\<open>-d\<close> is given and some positional argument is an absolute path, the
  run ends with status 1 and the usage message, and the world is the one it started
  in but for that message: nothing was validated, transcoded, written or deleted.
\<close>

theorem absolute_path_with_input_dir:
  assumes "input_dir a = Some d" and "d \<noteq> []" and "\<exists>img\<in>set (images a). os_isabs L img"
  shows "main L a w = (Exit 1, echo Stderr InputDirAbsolutePath w)
         \<and> files (snd (main L a w)) = files w \<and> dirs (snd (main L a w)) = dirs w"
proof -
  from assms(3) obtain first rest where imgs: "images a = first # rest"
    by (cases "images a") auto
  from assms(3) have "list_ex (os_isabs L) (images a)" by (simp add: list_ex_iff)
  with imgs assms(1,2) have "collect L a w = (Inl (Exit 1), echo Stderr InputDirAbsolutePath w)"
    by (simp add: collect_def collect_in_dir_def)
  then have "main L a w = (Exit 1, echo Stderr InputDirAbsolutePath w)"
    by (simp add: main_def before_assembly_def)
  then show ?thesis by (simp add: echo_def)
qed


text \<open>The directory \<^verbatim>\<open>/w\<close> with a relative and an absolute argument.\<close>

theorem absolute_path_with_input_dir_witness:
  "main sample_library (sample_args\<lparr>images := [''a.png'', ''/w/b.jpg''], input_dir := Some ''/w''\<rparr>)
     sample_world =
   (Exit 1, sample_world\<lparr>console := [(Stderr, InputDirAbsolutePath)]\<rparr>)"
proof -
  have abs: "\<exists>img\<in>set (images (sample_args\<lparr>images := [''a.png'', ''/w/b.jpg''],
                                      input_dir := Some ''/w''\<rparr>)).
               os_isabs sample_library img"
    by (simp add: sample_defs)
  have dir: "input_dir (sample_args\<lparr>images := [''a.png'', ''/w/b.jpg''],
                                      input_dir := Some ''/w''\<rparr>) = Some ''/w''"
    by simp
  from absolute_path_with_input_dir[OF dir _ abs, of sample_world]
  show ?thesis by (simp add: echo_def sample_world_def)
qed

subsection \<open>The stages before the assembler\<close>

text \<open>They change the console only; the lemmas give what each echoes.\<close>

lemma dry_run_lines_console:
  "dry_run_lines idx ps (w\<lparr>console := c\<rparr>) =
   w\<lparr>console := c @ indexed_lines DryRunLine idx ps\<rparr>"
  by (induction ps arbitrary: idx c) (simp_all add: echo_console)

lemma dry_run_listing_console:
  "dry_run_listing ps w =
   w\<lparr>console := console w @ (Stdout, DryRunHeader) # indexed_lines DryRunLine 1 ps\<rparr>"
  using dry_run_lines_console[where idx = 1 and ps = ps and w = w
      and c = "console w @ [(Stdout, DryRunHeader)]"]
  by (simp add: dry_run_listing_def echo_def)

lemma length_indexed_lines [simp]: "length (indexed_lines line idx ps) = length ps"
  by (induction ps arbitrary: idx) simp_all

lemma nth_indexed_lines:
  "i < length ps \<Longrightarrow> indexed_lines line idx ps ! i = (Stdout, line (idx + i) (ps ! i))"
proof (induction ps arbitrary: idx i)
  case Nil
  then show ?case by simp
next
  case (Cons p ps)
  then show ?case by (cases i) simp_all
qed

lemma echoed_only_refl [simp]: "echoed_only w w"
  by (simp add: echoed_only_def)

lemma echoed_only_echo [simp]: "echoed_only w (echo s m w') = echoed_only w w'"
  by (simp add: echoed_only_def echo_def)

lemma echoed_only_echo_if [simp]: "echoed_only w (echo_if b s m w') = echoed_only w w'"
  by (simp add: echo_if_def)

lemma echoed_only_console [simp]: "echoed_only w (w\<lparr>console := c\<rparr>)"
  by (simp add: echoed_only_def)

lemma echoed_only_trans: "echoed_only w w1 \<Longrightarrow> echoed_only w1 w2 \<Longrightarrow> echoed_only w w2"
  by (metis echoed_only_def world.surjective world.update_convs(6) world.select_convs)

lemma echoed_only_reads:
  assumes "echoed_only w w'"
  shows "accepted L w' = accepted L w" and "rejected L w' = rejected L w"
    and "process_image_body L w' = process_image_body L w"
    and "resolve L w' = resolve L w" and "files w' = files w" and "dirs w' = dirs w"
    and "denied w' = denied w" and "cwd w' = cwd w" and "clock w' = clock w"
proof -
  from assms have w: "w = w'\<lparr>console := console w\<rparr>" by (simp add: echoed_only_def)
  show "accepted L w' = accepted L w" "rejected L w' = rejected L w"
    "process_image_body L w' = process_image_body L w" "resolve L w' = resolve L w"
    by (subst w, simp add: accepted_def rejected_def fun_eq_iff)+
  show "files w' = files w" "dirs w' = dirs w" "denied w' = denied w" "cwd w' = cwd w"
    "clock w' = clock w"
    by (subst w, simp)+
qed

lemma scan_echoed: "echoed_only w (snd (scan L v d found w))"
  by (simp add: scan_def split: sum.splits)

lemma scan_quiet: "\<not> v \<Longrightarrow> snd (scan L v d found w) = w"
  by (simp add: scan_def echo_if_def split: sum.splits)

lemma collect_echoed: "echoed_only w (snd (collect L a w))"
  by (auto simp: collect_def collect_in_dir_def collect_plain_def scan_def
      split: option.splits list.splits sum.splits prod.splits if_splits)

lemma collect_quiet: "\<not> verbose a \<Longrightarrow> collect L a w = (Inr imgs, w1) \<Longrightarrow> w1 = w"
  by (auto simp: collect_def collect_in_dir_def collect_plain_def scan_def echo_if_def
      split: option.splits list.splits sum.splits prod.splits if_splits)


lemma validate_cases:
  "(\<exists>c. validate L v imgs w = (Inl (Uncaught OtherError), w\<lparr>console := c\<rparr>)) \<or>
   validate L v imgs w =
     (if filter (accepted L w) imgs = [] then Inl (Exit 1) else Inr (filter (accepted L w) imgs),
      w\<lparr>console := console w @ diagnostics L w v imgs @
           after_check v (filter (accepted L w) imgs)\<rparr>)"
proof (cases "list_all (\<lambda>p. rejected L w p \<or> accepted L w p) imgs")
  case True
  from validate_all_decided[OF True, of v "console w"] show ?thesis by simp
next
  case False
  from validate_undecided[OF False, of v "console w"] show ?thesis by simp
qed

lemma validate_Inr:
  assumes "validate L v imgs w = (Inr valid, w2)"
  shows "valid = filter (accepted L w) imgs" and "valid \<noteq> []"
    and "w2 = w\<lparr>console := console w @ diagnostics L w v imgs @ after_check v valid\<rparr>"
  using validate_cases[of L v imgs w] assms by (auto split: if_splits)

lemma validate_echoed: "echoed_only w (snd (validate L v imgs w))"
  using validate_cases[of L v imgs w] by auto

lemma validate_quiet:
  assumes "validate L False imgs w = (Inr valid, w2)"
  shows "w2 = w"
  using validate_Inr[OF assms] by (simp add: diagnostics_def after_check_def)

lemma process_image_console:
  "process_image L p q (w\<lparr>console := c\<rparr>) =
     (case process_image_body L w p q of
        Inl e \<Rightarrow> (Inl (Exit 1), w\<lparr>console := c @ [(Stderr, ProcessImageError p e)]\<rparr>)
      | Inr img \<Rightarrow> (Inr img, w\<lparr>console := c\<rparr>))"
  by (simp add: process_image_def echo_console split: sum.splits)

lemma transcode_loop_all:
  "list_all2 (\<lambda>p img. process_image_body L w p q = Inr img) ps imgs \<Longrightarrow>
   transcode_loop L q v idx ps acc (w\<lparr>console := c\<rparr>) =
     (Inr (acc @ imgs), w\<lparr>console := c @ page_lines v idx ps\<rparr>)"
proof (induction ps arbitrary: imgs idx acc c)
  case Nil
  then show ?case by (simp add: page_lines_def)
next
  case (Cons p ps)
  from Cons.prems obtain img rest where imgs: "imgs = img # rest"
    and img: "process_image_body L w p q = Inr img"
    and rest: "list_all2 (\<lambda>p img. process_image_body L w p q = Inr img) ps rest"
    by (auto simp: list_all2_Cons1)
  show ?case
    using Cons.IH[OF rest] img
    by (simp add: imgs process_image_console truthy_def echo_if_console page_lines_def)
qed

lemma transcode_loop_first_failure:
  assumes "list_all2 (\<lambda>p img. process_image_body L w p q = Inr img) pre imgs"
    and "process_image_body L w p q = Inl e"
  shows "transcode_loop L q v idx (pre @ p # post) acc (w\<lparr>console := c\<rparr>) =
     (Inl (Exit 1),
      w\<lparr>console := c @ page_lines v idx pre @ [(Stderr, ProcessImageError p e)]\<rparr>)"
  using assms(1)
proof (induction pre arbitrary: imgs idx acc c)
  case Nil
  then show ?case using assms(2) by (simp add: page_lines_def process_image_console)
next
  case (Cons x pre)
  from Cons.prems obtain img rest where imgs: "imgs = img # rest"
    and img: "process_image_body L w x q = Inr img"
    and rest: "list_all2 (\<lambda>p img. process_image_body L w p q = Inr img) pre rest"
    by (auto simp: list_all2_Cons1)
  show ?case
    using Cons.IH[OF rest] img
    by (simp add: imgs process_image_console truthy_def echo_if_console page_lines_def)
qed

lemma transcode_loop_Inr:
  "transcode_loop L q v idx ps acc (w\<lparr>console := c\<rparr>) = (Inr out, w') \<Longrightarrow>
   \<exists>imgs. out = acc @ imgs \<and>
     list_all2 (\<lambda>p img. process_image_body L w p q = Inr img) ps imgs \<and>
     w' = w\<lparr>console := c @ page_lines v idx ps\<rparr>"
proof (induction ps arbitrary: idx acc c)
  case Nil
  then show ?case by (auto simp: page_lines_def)
next
  case (Cons p ps)
  from Cons.prems obtain img where img: "process_image_body L w p q = Inr img"
    by (cases "process_image_body L w p q") (auto simp: process_image_console)
  with Cons.prems have "transcode_loop L q v (Suc idx) ps (acc @ [img])
      (w\<lparr>console := c @ (if v then [(Stdout, PageLine idx p)] else [])\<rparr>) = (Inr out, w')"
    by (simp add: process_image_console truthy_def echo_if_console)
  from Cons.IH[OF this] img show ?case
    by (auto simp: page_lines_def list_all2_Cons1)
qed

lemma transcode_loop_echoed: "echoed_only w (snd (transcode_loop L q v idx ps acc w))"
proof (induction ps arbitrary: idx acc w)
  case Nil
  then show ?case by simp
next
  case (Cons p ps)
  show ?case
  proof (cases "process_image_body L w p q")
    case (Inl e)
    then show ?thesis by (simp add: process_image_def)
  next
    case (Inr img)
    have "echoed_only w (echo_if v Stdout (PageLine idx p) w)" by simp
    from echoed_only_trans[OF this Cons.IH] Inr show ?thesis
      by (simp add: process_image_def truthy_def)
  qed
qed


lemmas run_defs =
  collect_def collect_in_dir_def collect_plain_def scan_def get_images_from_directory_def
  listdir_def getmtime_def validate_def echo_def echo_if_def transcode_def process_image_def
  process_image_body_def convert_RGB_def reencode_def truthy_def assemble_def
  write_and_remove_def save_pdf_def getsize_def os_remove_def exists_path_def
  dry_run_listing_def Let_def

lemma sample_library_fields:
  "os_isabs sample_library = posix_isabs" "os_join sample_library = posix_join"
  "os_abspath sample_library = posix_abspath" "os_dirname sample_library = posix_dirname"
  "pil_decode sample_library = sample_decode" "pil_verify sample_library = sample_verify"
  "pil_encode_jpeg sample_library = sample_encode_jpeg"
  by (simp_all add: sample_library_def)

lemma sample_world_fields:
  "console sample_world = []" "cwd sample_world = ''/w''" "files sample_world = sample_files"
  "dirs sample_world = sample_dirs" "clock sample_world = 100"
  by (simp_all add: sample_world_def)

lemma scan_w:
  "get_images_from_directory sample_library sample_world ''/w'' =
   Inr [''/w/b.jpg'', ''/w/g.png'', ''/w/a.png'']"
  by (simp add: run_defs validator_defs sample_defs)

subsection \<open>An exception of the validator inside the filter\<close>

text \<open>
  Claim C6: every collected path that fails the existence check or the image
  validation is dropped without aborting the run, and the run aborts with a
  non-zero exit exactly when no path passes. Line 122 calls the validator with no
  handler around it, so the exception that the validator lets through for a PNG
  with a bad checksum ends the whole run (a traceback, exit status 1), although
  \<^verbatim>\<open>a.png\<close> had passed and \<^verbatim>\<open>b.jpg\<close> would have: the path that fails validation is
  not dropped, and the run aborts while a path survives.
\<close>

theorem validator_exception_aborts_run:
  "accepted sample_library sample_world ''/w/a.png''
   \<and> is_image_file sample_library sample_world ''/x/e.png'' = Inl OtherError
   \<and> validate sample_library True [''/w/a.png'', ''/x/e.png'', ''/w/b.jpg''] sample_world =
       (Inl (Uncaught OtherError), sample_world)
   \<and> main sample_library (sample_args\<lparr>images := [''a.png'', ''/x/e.png'', ''b.jpg'']\<rparr>)
        sample_world = (Uncaught OtherError, sample_world)"
  by (simp add: main_def before_assembly_def run_defs accepted_def validator_defs sample_defs)

subsection \<open>The dry run\<close>

text \<open>
  Claim C5, as stated: with \<^verbatim>\<open>--dry-run\<close> and N images that pass validation the
  program prints exactly N lines, the i-th with the index i and the i-th path. Line
  136 echoes a header before the loop: with three images that pass (and a GIF that
  does not), four lines are printed, and the first is the header.
\<close>

theorem dry_run_prints_a_header:
  "main sample_library
     (sample_args\<lparr>images := [''a.png'', ''g.png'', ''c.gif'', ''b.jpg''], dry_run := True\<rparr>)
     sample_world =
   (Exit 0,
    sample_world\<lparr>console :=
      [(Stdout, DryRunHeader), (Stdout, DryRunLine 1 ''/w/a.png''),
       (Stdout, DryRunLine 2 ''/w/g.png''), (Stdout, DryRunLine 3 ''/w/b.jpg'')]\<rparr>)"
  by (simp add: main_def before_assembly_def run_defs validator_defs sample_defs)

text \<open>
  Claim C5, amended: with \<^verbatim>\<open>--dry-run\<close>, when the collector returns paths of which
  the N of \<open>valid\<close> pass validation, the program prints a header line and then
  exactly N lines, the i-th with the index i and the i-th validated path, after what
  the collector and the filter echoed (nothing on a run that is not verbose and
  whose paths all pass); it exits with status 0, and no file is created or changed.
\<close>

theorem dry_run_prints_header_and_lines:
  assumes "dry_run a"
    and "collect L a w = (Inr imgs, w1)"
    and "validate L (verbose a) imgs w1 = (Inr valid, w2)"
  shows "main L a w =
           (Exit 0,
            w2\<lparr>console := console w2 @ (Stdout, DryRunHeader) #
                                indexed_lines DryRunLine 1 valid\<rparr>)
         \<and> valid = filter (accepted L w) imgs
         \<and> length (indexed_lines DryRunLine 1 valid) = length valid
         \<and> (\<forall>i<length valid.
               indexed_lines DryRunLine 1 valid ! i = (Stdout, DryRunLine (Suc i) (valid ! i)))
         \<and> (\<not> verbose a \<longrightarrow> w2 = w)
         \<and> files (snd (main L a w)) = files w \<and> dirs (snd (main L a w)) = dirs w"
proof -
  have e1: "echoed_only w w1" using collect_echoed[of w L a] assms(2) by simp
  have e2: "echoed_only w1 w2" using validate_echoed[of w1 L "verbose a" imgs] assms(3) by simp
  have e: "echoed_only w w2" by (rule echoed_only_trans[OF e1 e2])
  have run: "main L a w = (Exit 0, dry_run_listing valid w2)"
    using assms by (simp add: main_def before_assembly_def)
  have quiet: "\<not> verbose a \<longrightarrow> w2 = w"
    using collect_quiet[OF _ assms(2)] validate_quiet[of L imgs w1 valid w2] assms(3) by auto
  have valid: "valid = filter (accepted L w) imgs"
    using validate_Inr(1)[OF assms(3)] echoed_only_reads(1)[OF e1] by simp
  show ?thesis
    using run quiet valid echoed_only_reads(5,6)[OF e]
    by (simp add: dry_run_listing_console nth_indexed_lines)
qed

text \<open>A verbose dry run of the scan of \<^verbatim>\<open>/w\<close>: three images, in the order of their
  modification times.\<close>

theorem dry_run_prints_header_and_lines_witness:
  "main sample_library
     (sample_args\<lparr>images := [''auto-stamp''], input_dir := Some ''/w'', dry_run := True,
        verbose := True\<rparr>)
     sample_world =
   (Exit 0,
    sample_world\<lparr>console :=
      [(Stdout, FoundInDirectory ''/w'' 3), (Stdout, FilesAfterCheck 3),
       (Stdout, DryRunHeader), (Stdout, DryRunLine 1 ''/w/b.jpg''),
       (Stdout, DryRunLine 2 ''/w/g.png''), (Stdout, DryRunLine 3 ''/w/a.png'')]\<rparr>)"
proof -
  let ?a = "sample_args\<lparr>images := [''auto-stamp''], input_dir := Some ''/w'', dry_run := True,
        verbose := True\<rparr>"
  let ?w1 = "sample_world\<lparr>console := [(Stdout, FoundInDirectory ''/w'' 3)]\<rparr>"
  let ?w2 = "sample_world\<lparr>console := [(Stdout, FoundInDirectory ''/w'' 3),
        (Stdout, FilesAfterCheck 3)]\<rparr>"
  have d: "dry_run ?a" by simp
  have c: "collect sample_library ?a sample_world =
      (Inr [''/w/b.jpg'', ''/w/g.png'', ''/w/a.png''], ?w1)"
    by (simp add: collect_def collect_in_dir_def scan_def scan_w echo_if_def echo_def
        sample_args_def sample_library_fields sample_world_fields posix_isabs_def)
  have v: "validate sample_library (verbose ?a) [''/w/b.jpg'', ''/w/g.png'', ''/w/a.png''] ?w1 =
      (Inr [''/w/b.jpg'', ''/w/g.png'', ''/w/a.png''], ?w2)"
    by (simp add: run_defs validator_defs sample_defs)
  from dry_run_prints_header_and_lines[OF d c v] show ?thesis by simp
qed


subsection \<open>A failure of the transcoder\<close>

text \<open>
  Claim C8: when the transcoder raises on a validated path \<open>p\<close>, after the validated
  paths \<open>pre\<close> before it were transcoded, the run ends with status 1 and the
  diagnostic for \<open>p\<close> on the error stream; no file is written or deleted. The
  paths \<open>post\<close> after \<open>p\<close> have no part in the result: it is the same whatever
  they are. The filter, by contrast, drops a path and goes on
  (\<open>validate_loop_all_decided\<close>).
\<close>

theorem transcoding_failure_is_fatal:
  assumes "collect L a w = (Inr imgs, w1)"
    and "validate L (verbose a) imgs w1 = (Inr valid, w2)"
    and "\<not> dry_run a"
    and "valid = pre @ p # post"
    and "list_all2 (\<lambda>x img. process_image_body L w x (quality a) = Inr img) pre processed"
    and "process_image_body L w p (quality a) = Inl e"
  shows "main L a w =
           (Exit 1,
            w2\<lparr>console := console w2 @ page_lines (verbose a) 1 pre @
                                [(Stderr, ProcessImageError p e)]\<rparr>)
         \<and> files (snd (main L a w)) = files w \<and> dirs (snd (main L a w)) = dirs w"
proof -
  have e1: "echoed_only w w1" using collect_echoed[of w L a] assms(1) by simp
  have e2: "echoed_only w1 w2" using validate_echoed[of w1 L "verbose a" imgs] assms(2) by simp
  have e: "echoed_only w w2" by (rule echoed_only_trans[OF e1 e2])
  have pre: "list_all2 (\<lambda>x img. process_image_body L w2 x (quality a) = Inr img) pre processed"
    using assms(5) by (simp add: echoed_only_reads(3)[OF e])
  have p: "process_image_body L w2 p (quality a) = Inl e"
    using assms(6) by (simp add: echoed_only_reads(3)[OF e])
  have "transcode_loop L (quality a) (verbose a) 1 (pre @ p # post) []
          (w2\<lparr>console := console w2\<rparr>) =
        (Inl (Exit 1),
         w2\<lparr>console := console w2 @ page_lines (verbose a) 1 pre @
                                [(Stderr, ProcessImageError p e)]\<rparr>)"
    by (rule transcode_loop_first_failure[OF pre p])
  then have "transcode L a valid w2 =
        (Inl (Exit 1),
         w2\<lparr>console := console w2 @ page_lines (verbose a) 1 pre @
                                [(Stderr, ProcessImageError p e)]\<rparr>)"
    by (simp add: transcode_def assms(4))
  then have "main L a w =
        (Exit 1,
         w2\<lparr>console := console w2 @ page_lines (verbose a) 1 pre @
                                [(Stderr, ProcessImageError p e)]\<rparr>)"
    using assms(1,2,3) by (simp add: main_def before_assembly_def)
  then show ?thesis using echoed_only_reads(5,6)[OF e] by simp
qed

text \<open>Three validated paths of which the second, a grey PNG with an alpha channel,
  cannot be written as JPEG.\<close>

theorem transcoding_failure_is_fatal_witness:
  "main sample_library
     (sample_args\<lparr>images := [''b.jpg'', ''/x/d.png'', ''a.png''], verbose := True\<rparr>)
     sample_world =
   (Exit 1,
    sample_world\<lparr>console :=
      [(Stdout, FilesAfterCheck 3), (Stdout, PageLine 1 ''/w/b.jpg''),
       (Stderr, ProcessImageError ''/x/d.png'' IOError)]\<rparr>)"
proof -
  let ?a = "sample_args\<lparr>images := [''b.jpg'', ''/x/d.png'', ''a.png''], verbose := True\<rparr>"
  let ?w2 = "sample_world\<lparr>console := [(Stdout, FilesAfterCheck 3)]\<rparr>"
  have c: "collect sample_library ?a sample_world =
      (Inr [''/w/b.jpg'', ''/x/d.png'', ''/w/a.png''], sample_world)"
    by (simp add: run_defs validator_defs sample_defs)
  have v: "validate sample_library (verbose ?a) [''/w/b.jpg'', ''/x/d.png'', ''/w/a.png'']
      sample_world = (Inr [''/w/b.jpg'', ''/x/d.png'', ''/w/a.png''], ?w2)"
    by (simp add: run_defs validator_defs sample_defs)
  have d: "\<not> dry_run ?a" by (simp add: sample_args_def)
  have split: "[''/w/b.jpg'', ''/x/d.png'', ''/w/a.png''] = [''/w/b.jpg''] @ ''/x/d.png'' # [''/w/a.png'']"
    by simp
  have pre: "list_all2 (\<lambda>x img. process_image_body sample_library sample_world x (quality ?a) = Inr img)
      [''/w/b.jpg''] [\<lparr>format = Some ''JPEG'', mode = ''RGB'', payload = [8]\<rparr>]"
    by (simp add: run_defs validator_defs sample_defs)
  have p: "process_image_body sample_library sample_world ''/x/d.png'' (quality ?a) = Inl IOError"
    by (simp add: run_defs validator_defs sample_defs)
  from transcoding_failure_is_fatal[OF c v d split pre p] show ?thesis
    by (simp add: page_lines_def)
qed

subsection \<open>The directory scan\<close>

lemma select_images_Inr:
  "select_images L w d es = Inr fs \<Longrightarrow>
   fs = filter (\<lambda>f. is_image_file L w (os_join L d f) = Inr True) es"
proof (induction es arbitrary: fs)
  case Nil
  then show ?case by simp
next
  case (Cons f es)
  then show ?case by (auto split: sum.splits if_splits)
qed

lemma select_images_total:
  "list_all (\<lambda>f. is_image_file L w (os_join L d f) \<noteq> Inl OtherError) es \<Longrightarrow>
   \<exists>fs. select_images L w d es = Inr fs"
proof (induction es)
  case Nil
  then show ?case by simp
next
  case (Cons f es)
  then show ?case using is_image_file_cases[of L w "os_join L d f"] by auto
qed

lemma accepted_has_mtime:
  assumes "is_image_file L w p = Inr True"
  shows "\<exists>t. getmtime L w p = Inr t"
proof (cases "files w (resolve L w p)")
  case None
  then have "is_image_file L w p = Inr False"
    by (simp add: is_image_file_def is_image_file_body_def Image_open_def caught_by_validator_def)
  with assms show ?thesis by simp
next
  case (Some f)
  then show ?thesis by (simp add: getmtime_def)
qed

lemma sort_keys_Inr:
  "sort_keys L w d fs = Inr keyed \<Longrightarrow>
   map snd keyed = fs \<and> list_all (\<lambda>(t, f). getmtime L w (os_join L d f) = Inr t) keyed"
proof (induction fs arbitrary: keyed)
  case Nil
  then show ?case by simp
next
  case (Cons f fs)
  then show ?case by (auto split: sum.splits)
qed

lemma sort_keys_total:
  "list_all (\<lambda>f. is_image_file L w (os_join L d f) = Inr True) fs \<Longrightarrow>
   \<exists>keyed. sort_keys L w d fs = Inr keyed"
proof (induction fs)
  case Nil
  then show ?case by simp
next
  case (Cons f fs)
  then show ?case using accepted_has_mtime[of L w "os_join L d f"] by auto
qed

lemma get_images_from_directory_Inr:
  assumes "get_images_from_directory L w d = Inr ps"
  shows "\<exists>entries fs ts.
           listdir L w d = Inr entries \<and> ps = map (os_join L d) fs
           \<and> mset fs = mset (filter (\<lambda>f. is_image_file L w (os_join L d f) = Inr True) entries)
           \<and> list_all2 (\<lambda>p t. getmtime L w p = Inr t) ps ts \<and> sorted ts"
proof -
  from assms obtain entries sel keyed where l: "listdir L w d = Inr entries"
    and s: "select_images L w d entries = Inr sel"
    and k: "sort_keys L w d sel = Inr keyed"
    and ps: "ps = map (\<lambda>(t, f). os_join L d f) (sort_key fst keyed)"
    by (auto simp: get_images_from_directory_def split: sum.splits)
  let ?sorted = "sort_key fst keyed"
  have sel: "sel = filter (\<lambda>f. is_image_file L w (os_join L d f) = Inr True) entries"
    by (rule select_images_Inr[OF s])
  from sort_keys_Inr[OF k] have snd: "map snd keyed = sel"
    and times: "list_all (\<lambda>(t, f). getmtime L w (os_join L d f) = Inr t) keyed" by simp_all
  have "mset (map snd ?sorted) = mset (map snd keyed)"
    by (simp add: mset_map)
  then have m: "mset (map snd ?sorted) = mset sel" by (simp add: snd)
  have p: "ps = map (os_join L d) (map snd ?sorted)"
    by (simp add: ps case_prod_unfold)
  have "list_all (\<lambda>(t, f). getmtime L w (os_join L d f) = Inr t) ?sorted"
    using times by (simp add: list_all_iff)
  then have t: "list_all2 (\<lambda>p t. getmtime L w p = Inr t) ps (map fst ?sorted)"
    by (simp add: ps list_all2_conv_all_nth list_all_length case_prod_unfold)
  have "sorted (map fst ?sorted)" by (rule sorted_sort_key)
  with l p m t sel show ?thesis by blast
qed

lemma get_images_from_directory_total:
  assumes "listdir L w d = Inr entries"
    and "list_all (\<lambda>f. is_image_file L w (os_join L d f) \<noteq> Inl OtherError) entries"
  shows "\<exists>ps. get_images_from_directory L w d = Inr ps"
proof -
  from select_images_total[OF assms(2)] obtain sel
    where s: "select_images L w d entries = Inr sel" by blast
  from select_images_Inr[OF s]
  have "list_all (\<lambda>f. is_image_file L w (os_join L d f) = Inr True) sel"
    by (simp add: list_all_iff)
  from sort_keys_total[OF this] obtain keyed where "sort_keys L w d sel = Inr keyed" by blast
  with assms(1) s show ?thesis by (simp add: get_images_from_directory_def)
qed


text \<open>
  Claim C2, as stated: the directory scan is triggered exactly when \<^verbatim>\<open>auto-stamp\<close> is
  the sole positional argument. Lines 97 and 105 test the first argument only (the
  comment of line 96 says so), and the arguments after it are ignored: with a second
  argument the collector still returns the images of the working directory, by
  modification time.
\<close>

theorem auto_stamp_with_more_arguments:
  "collect sample_library (sample_args\<lparr>images := [''auto-stamp'', ''a.png'']\<rparr>) sample_world =
   (Inr [''/w/b.jpg'', ''/w/g.png'', ''/w/a.png''], sample_world)"
  by (simp add: run_defs validator_defs sample_defs)

text \<open>
  Claim C2, amended: the directory scan is triggered exactly when the first
  positional argument is \<^verbatim>\<open>auto-stamp\<close> (with \<^verbatim>\<open>-d\<close>, provided no argument is an
  absolute path); the arguments after it are ignored. The collector then lists the
  base directory (with \<^verbatim>\<open>-d\<close>) or the working directory (without), and when the first
  argument is anything else it builds the list from the arguments. The scan returns
  exactly the entries of the listing that the validator accepts, each joined to the
  directory, in ascending order of modification time, whatever their names; and it
  does return when the directory can be listed and the validator raises on no entry.
\<close>

theorem auto_stamp_first_argument:
  "(\<forall>rest d. images a = ''auto-stamp'' # rest \<and> input_dir a = Some d \<and> d \<noteq> [] \<and>
        \<not> list_ex (os_isabs L) (images a) \<longrightarrow>
        collect L a w = scanned L (verbose a) d (FoundInDirectory d) w)
   \<and> (\<forall>rest. images a = ''auto-stamp'' # rest \<and> (input_dir a = None \<or> input_dir a = Some []) \<longrightarrow>
        collect L a w = scanned L (verbose a) (cwd w) FoundInCurrentDirectory w)
   \<and> (\<forall>first rest d. images a = first # rest \<and> first \<noteq> ''auto-stamp'' \<and>
        input_dir a = Some d \<and> d \<noteq> [] \<and> \<not> list_ex (os_isabs L) (images a) \<longrightarrow>
        collect L a w = (Inr (map (os_join L d) (images a)), w))
   \<and> (\<forall>first rest. images a = first # rest \<and> first \<noteq> ''auto-stamp'' \<and>
        (input_dir a = None \<or> input_dir a = Some []) \<longrightarrow>
        fst (collect L a w) =
          (if filter (isfile L w) (images a) = [] then Inl (Exit 1)
           else Inr (map (resolve L w) (filter (isfile L w) (images a)))))
   \<and> (\<forall>d ps. get_images_from_directory L w d = Inr ps \<longrightarrow>
        (\<exists>entries fs ts.
           listdir L w d = Inr entries \<and> ps = map (os_join L d) fs
           \<and> mset fs = mset (filter (\<lambda>f. is_image_file L w (os_join L d f) = Inr True) entries)
           \<and> list_all2 (\<lambda>p t. getmtime L w p = Inr t) ps ts \<and> sorted ts))
   \<and> (\<forall>d entries. listdir L w d = Inr entries \<and>
        list_all (\<lambda>f. is_image_file L w (os_join L d f) \<noteq> Inl OtherError) entries \<longrightarrow>
        (\<exists>ps. get_images_from_directory L w d = Inr ps))"
proof (intro conjI allI impI)
  fix rest d
  assume "images a = ''auto-stamp'' # rest \<and> input_dir a = Some d \<and> d \<noteq> [] \<and>
        \<not> list_ex (os_isabs L) (images a)"
  then show "collect L a w = scanned L (verbose a) d (FoundInDirectory d) w"
    by (auto simp: collect_def collect_in_dir_def scan_def scanned_def echo_if_def echo_def
        split: sum.splits)
next
  fix rest
  assume "images a = ''auto-stamp'' # rest \<and> (input_dir a = None \<or> input_dir a = Some [])"
  then show "collect L a w = scanned L (verbose a) (cwd w) FoundInCurrentDirectory w"
    by (auto simp: collect_def collect_plain_def scan_def scanned_def echo_if_def echo_def
        split: sum.splits)
next
  fix first rest d
  assume "images a = first # rest \<and> first \<noteq> ''auto-stamp'' \<and>
        input_dir a = Some d \<and> d \<noteq> [] \<and> \<not> list_ex (os_isabs L) (images a)"
  then show "collect L a w = (Inr (map (os_join L d) (images a)), w)"
    by (auto simp: collect_def collect_in_dir_def)
next
  fix first rest
  assume "images a = first # rest \<and> first \<noteq> ''auto-stamp'' \<and>
        (input_dir a = None \<or> input_dir a = Some [])"
  then show "fst (collect L a w) =
          (if filter (isfile L w) (images a) = [] then Inl (Exit 1)
           else Inr (map (resolve L w) (filter (isfile L w) (images a))))"
    by (auto simp: collect_def collect_plain_def)
next
  fix d ps
  assume "get_images_from_directory L w d = Inr ps"
  then show "\<exists>entries fs ts.
           listdir L w d = Inr entries \<and> ps = map (os_join L d) fs
           \<and> mset fs = mset (filter (\<lambda>f. is_image_file L w (os_join L d f) = Inr True) entries)
           \<and> list_all2 (\<lambda>p t. getmtime L w p = Inr t) ps ts \<and> sorted ts"
    by (rule get_images_from_directory_Inr)
next
  fix d entries
  assume "listdir L w d = Inr entries \<and>
        list_all (\<lambda>f. is_image_file L w (os_join L d f) \<noteq> Inl OtherError) entries"
  then show "\<exists>ps. get_images_from_directory L w d = Inr ps"
    using get_images_from_directory_total by blast
qed

text \<open>The scan of \<^verbatim>\<open>/w\<close>, whose images by name are a, b, g and by time b, g, a; and
  the same directory with two file names.\<close>

theorem auto_stamp_first_argument_witness:
  "collect sample_library (sample_args\<lparr>images := [''auto-stamp''], input_dir := Some ''/w''\<rparr>)
     sample_world =
   (Inr [''/w/b.jpg'', ''/w/g.png'', ''/w/a.png''], sample_world)
   \<and> collect sample_library (sample_args\<lparr>images := [''g.png'', ''a.png''], input_dir := Some ''/w''\<rparr>)
     sample_world =
   (Inr [''/w/g.png'', ''/w/a.png''], sample_world)
   \<and> map (getmtime sample_library sample_world) [''/w/b.jpg'', ''/w/g.png'', ''/w/a.png''] =
     [Inr 10, Inr 15, Inr 30]"
proof -
  let ?a = "sample_args\<lparr>images := [''auto-stamp''], input_dir := Some ''/w''\<rparr>"
  let ?b = "sample_args\<lparr>images := [''g.png'', ''a.png''], input_dir := Some ''/w''\<rparr>"
  have a: "images ?a = ''auto-stamp'' # [] \<and> input_dir ?a = Some ''/w'' \<and> ''/w'' \<noteq> [] \<and>
      \<not> list_ex (os_isabs sample_library) (images ?a)"
    by (simp add: sample_library_fields posix_isabs_def)
  have b: "images ?b = ''g.png'' # [''a.png''] \<and> ''g.png'' \<noteq> ''auto-stamp'' \<and>
      input_dir ?b = Some ''/w'' \<and> ''/w'' \<noteq> [] \<and>
      \<not> list_ex (os_isabs sample_library) (images ?b)"
    by (simp add: sample_library_fields posix_isabs_def)
  have v: "\<not> verbose ?a" by (simp add: sample_args_def)
  from auto_stamp_first_argument[of ?a sample_library sample_world] a
  have "collect sample_library ?a sample_world =
      scanned sample_library (verbose ?a) ''/w'' (FoundInDirectory ''/w'') sample_world"
    by blast
  then have 1: "collect sample_library ?a sample_world =
      (Inr [''/w/b.jpg'', ''/w/g.png'', ''/w/a.png''], sample_world)"
    using v by (simp add: scanned_def scan_w sample_world_fields)
  from auto_stamp_first_argument[of ?b sample_library sample_world] b
  have "collect sample_library ?b sample_world =
      (Inr (map (os_join sample_library ''/w'') (images ?b)), sample_world)"
    by blast
  then have 2: "collect sample_library ?b sample_world =
      (Inr [''/w/g.png'', ''/w/a.png''], sample_world)"
    by (simp add: sample_library_fields posix_join_def posix_isabs_def)
  have 3: "map (getmtime sample_library sample_world) [''/w/b.jpg'', ''/w/g.png'', ''/w/a.png''] =
     [Inr 10, Inr 15, Inr 30]"
    by (simp add: getmtime_def resolve_def sample_defs)
  from 1 2 3 show ?thesis by simp
qed

subsection \<open>The assembler and the removal of the sources\<close>

lemma os_remove_Inr:
  "os_remove L p w = Inr w' \<Longrightarrow>
   w' = w\<lparr>files := (files w)(resolve L w p := None)\<rparr> \<and> files w (resolve L w p) \<noteq> None"
  by (auto simp: os_remove_def Let_def split: if_splits)

lemma files_update_resolve [simp]: "resolve L (w\<lparr>files := f\<rparr>) p = resolve L w p"
  by (simp add: resolve_def)

lemma remove_all_None:
  "remove_all L ps w = (None, w') \<Longrightarrow>
   w' = w\<lparr>files := (\<lambda>r. if r \<in> resolve L w ` set ps then None else files w r)\<rparr>"
proof (induction ps arbitrary: w)
  case Nil
  then show ?case by simp
next
  case (Cons p ps)
  from Cons.prems obtain w1 where r: "os_remove L p w = Inr w1"
    and rest: "remove_all L ps w1 = (None, w')"
    by (cases "os_remove L p w") auto
  from os_remove_Inr[OF r] have w1: "w1 = w\<lparr>files := (files w)(resolve L w p := None)\<rparr>"
    by simp
  from Cons.IH[OF rest] show ?case
    by (simp add: w1 fun_eq_iff)
qed

lemma remove_all_append:
  "remove_all L (xs @ ys) w =
     (case remove_all L xs w of
        (Some e, w') \<Rightarrow> (Some e, w')
      | (None, w') \<Rightarrow> remove_all L ys w')"
  by (induction xs arbitrary: w) (auto split: sum.splits)

lemma remove_all_stops:
  assumes "remove_all L pre w = (None, w1)" and "os_remove L p w1 = Inl e"
  shows "remove_all L (pre @ p # post) w = (Some e, w1)"
  using assms by (simp add: remove_all_append)

lemma remove_all_keeps:
  "files (snd (remove_all L ps w)) r \<noteq> None \<Longrightarrow> files w r \<noteq> None"
proof (induction ps arbitrary: w)
  case Nil
  then show ?case by simp
next
  case (Cons p ps)
  show ?case
  proof (cases "os_remove L p w")
    case (Inl e)
    with Cons.prems show ?thesis by simp
  next
    case (Inr w1)
    with Cons.prems have "files (snd (remove_all L ps w1)) r \<noteq> None" by simp
    from Cons.IH[OF this] os_remove_Inr[OF Inr] show ?thesis by (auto split: if_splits)
  qed
qed

lemma save_pdf_None:
  "save_pdf L out pages w = (None, w') \<Longrightarrow>
   \<exists>n. pil_encode_pdf L pages = Inr n \<and>
       w' = w\<lparr>files := (files w)(resolve L w out \<mapsto>
                 \<lparr>mtime = clock w, content = PdfDocument pages n\<rparr>)\<rparr> \<and>
       dirs w (resolve L w (os_dirname L (resolve L w out))) \<noteq> None"
  by (auto simp: save_pdf_def Let_def split: if_splits sum.splits)

lemma save_pdf_keeps:
  "files w r \<noteq> None \<Longrightarrow> files (snd (save_pdf L out pages w)) r \<noteq> None"
  by (auto simp: save_pdf_def Let_def split: if_splits sum.splits)

lemma before_assembly_echoed: "echoed_only w (snd (before_assembly L a w))"
proof -
  obtain r1 w1 where c: "collect L a w = (r1, w1)" by (cases "collect L a w")
  have e1: "echoed_only w w1" using collect_echoed[of w L a] c by simp
  show ?thesis
  proof (cases r1)
    case (Inl out)
    with c e1 show ?thesis by (simp add: before_assembly_def)
  next
    case (Inr imgs)
    obtain r2 w2 where v: "validate L (verbose a) imgs w1 = (r2, w2)"
      by (cases "validate L (verbose a) imgs w1")
    have e2: "echoed_only w w2"
      using echoed_only_trans[OF e1 validate_echoed[of w1 L "verbose a" imgs]] v by simp
    show ?thesis
    proof (cases r2)
      case (Inl out)
      with c Inr v e2 show ?thesis by (simp add: before_assembly_def)
    next
      case valid: (Inr valid)
      show ?thesis
      proof (cases "dry_run a")
        case True
        with c Inr v valid e2 show ?thesis
          by (simp add: before_assembly_def dry_run_listing_console echoed_only_def)
      next
        case False
        have t: "echoed_only w2 (snd (transcode L a valid w2))"
          using transcode_loop_echoed[of w2 L "quality a" "verbose a" 1 valid "[]"]
          by (auto simp: transcode_def split: prod.splits sum.splits)
        from echoed_only_trans[OF e2 t] c Inr v valid False show ?thesis
          by (auto simp: before_assembly_def split: prod.splits sum.splits)
      qed
    qed
  qed
qed


lemma console_update_os_remove:
  "os_remove L p (w\<lparr>console := c\<rparr>) =
     (case os_remove L p w of Inl e \<Rightarrow> Inl e | Inr w' \<Rightarrow> Inr (w'\<lparr>console := c\<rparr>))"
  by (simp add: os_remove_def Let_def)

lemma console_update_remove_all:
  "remove_all L ps (w\<lparr>console := c\<rparr>) =
     (case remove_all L ps w of (x, w') \<Rightarrow> (x, w'\<lparr>console := c\<rparr>))"
  by (induction ps arbitrary: w) (auto simp: console_update_os_remove split: sum.splits)

lemma remove_all_console: "console (snd (remove_all L ps w)) = console w"
proof (induction ps arbitrary: w)
  case Nil
  then show ?case by simp
next
  case (Cons p ps)
  then show ?case
    by (cases "os_remove L p w") (auto simp: os_remove_def Let_def split: if_splits)
qed

text \<open>The assembler once the document is written: the size is read, the line echoed.\<close>

lemma assemble_after_write:
  assumes "save_pdf L (output_path a) processed w3 = (None, w4)" and "processed \<noteq> []"
  shows "\<exists>n. pil_encode_pdf L processed = Inr n \<and>
     files w4 = (files w3)(resolve L w3 (output_path a) \<mapsto>
                  \<lparr>mtime = clock w3, content = PdfDocument processed n\<rparr>) \<and>
     assemble L a valid processed w3 =
       (if remove_source a
        then (case remove_all L valid w4 of
                (Some e, w5) \<Rightarrow>
                  (Exit 1, w5\<lparr>console := console w3 @
                     [(Stdout, Created (output_path a) n), (Stderr, SavePdfError e)]\<rparr>)
              | (None, w5) \<Rightarrow>
                  (Exit 0, w5\<lparr>console := console w3 @
                     [(Stdout, Created (output_path a) n), (Stdout, SourcesRemoved)]\<rparr>))
        else (Exit 0, w4\<lparr>console := console w3 @ [(Stdout, Created (output_path a) n)]\<rparr>))"
proof -
  from save_pdf_None[OF assms(1)] obtain n where n: "pil_encode_pdf L processed = Inr n"
    and w4: "w4 = w3\<lparr>files := (files w3)(resolve L w3 (output_path a) \<mapsto>
                 \<lparr>mtime = clock w3, content = PdfDocument processed n\<rparr>)\<rparr>"
    and dir: "dirs w3 (resolve L w3 (os_dirname L (resolve L w3 (output_path a)))) \<noteq> None"
    by blast
  from assms(2) obtain first rest where p: "processed = first # rest"
    by (cases processed) auto
  have check: "exists_path L w3 (os_dirname L (resolve L w3 (output_path a)))"
    using dir by (simp add: exists_path_def)
  have size: "getsize L w4 (output_path a) = Inr n"
    by (simp add: getsize_def w4)
  have c4: "console w4 = console w3" by (simp add: w4)
  have created: "echo Stdout (Created (output_path a) n) w4 =
      w4\<lparr>console := console w3 @ [(Stdout, Created (output_path a) n)]\<rparr>"
    by (simp add: echo_def c4)
  have war: "write_and_remove L a valid processed w3 =
      (if remove_source a
       then (case remove_all L valid w4 of
               (Some e, w5) \<Rightarrow>
                 (Some e, w5\<lparr>console := console w3 @ [(Stdout, Created (output_path a) n)]\<rparr>)
             | (None, w5) \<Rightarrow>
                 (None, w5\<lparr>console := console w3 @
                    [(Stdout, Created (output_path a) n), (Stdout, SourcesRemoved)]\<rparr>))
       else (None, w4\<lparr>console := console w3 @ [(Stdout, Created (output_path a) n)]\<rparr>))"
    using assms(1) size
    by (auto simp: write_and_remove_def p created console_update_remove_all echo_console
        split: prod.splits option.splits)
  have "assemble L a valid processed w3 =
       (if remove_source a
        then (case remove_all L valid w4 of
                (Some e, w5) \<Rightarrow>
                  (Exit 1, w5\<lparr>console := console w3 @
                     [(Stdout, Created (output_path a) n), (Stderr, SavePdfError e)]\<rparr>)
              | (None, w5) \<Rightarrow>
                  (Exit 0, w5\<lparr>console := console w3 @
                     [(Stdout, Created (output_path a) n), (Stdout, SourcesRemoved)]\<rparr>))
        else (Exit 0, w4\<lparr>console := console w3 @ [(Stdout, Created (output_path a) n)]\<rparr>))"
    using check
    by (auto simp: assemble_def Let_def war echo_console split: prod.splits option.splits)
  with n w4 show ?thesis by simp
qed


lemma assemble_deletes_only_after_write:
  assumes "files w r \<noteq> None" and "files (snd (assemble L a valid processed w)) r = None"
  shows "remove_source a \<and> (\<exists>w4. save_pdf L (output_path a) processed w = (None, w4))"
proof -
  obtain x w1 where s: "save_pdf L (output_path a) processed w = (x, w1)"
    by (cases "save_pdf L (output_path a) processed w")
  have keep: "files w1 r \<noteq> None"
    using save_pdf_keeps[OF assms(1), of L "output_path a" processed] s by simp
  show ?thesis
  proof (cases "processed = [] \<or> x \<noteq> None \<or> \<not> remove_source a")
    case True
    then have "files (snd (assemble L a valid processed w)) r = files w r \<or>
        files (snd (assemble L a valid processed w)) r = files w1 r"
      using s
      by (auto simp: assemble_def write_and_remove_def Let_def echo_def
          split: list.splits prod.splits option.splits sum.splits if_splits)
    with assms keep show ?thesis by auto
  next
    case False
    with s show ?thesis by auto
  qed
qed

lemma assemble_Exit0:
  assumes "assemble L a valid processed w3 = (Exit 0, w_end)" and "processed \<noteq> []"
  shows "\<exists>n. pil_encode_pdf L processed = Inr n \<and>
     files w_end =
       (\<lambda>r. if remove_source a \<and> r \<in> resolve L w3 ` set valid then None
            else if r = resolve L w3 (output_path a)
            then Some \<lparr>mtime = clock w3, content = PdfDocument processed n\<rparr>
            else files w3 r)"
proof -
  from assms(1) obtain w4 where s: "save_pdf L (output_path a) processed w3 = (None, w4)"
    by (cases "save_pdf L (output_path a) processed w3")
       (auto simp: assemble_def write_and_remove_def Let_def
          split: list.splits prod.splits option.splits sum.splits if_splits)
  obtain x w5 where r0: "remove_all L valid w4 = (x, w5)"
    by (cases "remove_all L valid w4")
  from assemble_after_write[OF s assms(2), where valid = valid] obtain n
    where n: "pil_encode_pdf L processed = Inr n"
      and f4: "files w4 = (files w3)(resolve L w3 (output_path a) \<mapsto>
                  \<lparr>mtime = clock w3, content = PdfDocument processed n\<rparr>)"
      and asm: "assemble L a valid processed w3 =
        (if remove_source a
         then (case x of
           Some e \<Rightarrow> (Exit 1, w5\<lparr>console := console w3 @
                     [(Stdout, Created (output_path a) n), (Stderr, SavePdfError e)]\<rparr>)
         | None \<Rightarrow> (Exit 0, w5\<lparr>console := console w3 @
                     [(Stdout, Created (output_path a) n), (Stdout, SourcesRemoved)]\<rparr>))
         else (Exit 0, w4\<lparr>console := console w3 @ [(Stdout, Created (output_path a) n)]\<rparr>))"
    using r0 by auto
  have r4: "resolve L w4 = resolve L w3"
    using save_pdf_None[OF s] by (auto simp: fun_eq_iff)
  show ?thesis
  proof (cases "remove_source a")
    case False
    with asm assms(1) have "files w_end = files w4" by auto
    with f4 n False show ?thesis by (auto simp: fun_eq_iff)
  next
    case True
    with asm assms(1) have r: "remove_all L valid w4 = (None, w5)" and f': "files w_end = files w5"
      using r0 by (cases x; auto)+
    from remove_all_None[OF r]
    have "files w5 = (\<lambda>r. if r \<in> resolve L w4 ` set valid then None else files w4 r)"
      by simp
    with f' f4 r4 n True show ?thesis by (auto simp: fun_eq_iff)
  qed
qed

text \<open>
  Claim C1: for every run that reaches the assembler, the image objects passed to it
  are at least one, as many as the validated paths, and the i-th is the transcoder's
  result for the i-th validated path; the validated paths are the collected paths
  that pass the filter, in their order. The assembler is called with this sequence
  and writes it: once the write of line 160 succeeds, the output path holds a
  document with exactly these pages in this order, and the run goes on as lines 161
  to 167 say; and every run that ends with status 0 leaves that document at the
  output path (unless \<^verbatim>\<open>-r\<close> removed it with the sources), every other file being as
  it was but for the sources that \<^verbatim>\<open>-r\<close> removed. So the page count is the number of
  validated images and the page order is theirs.
\<close>

theorem assembler_input_matches_validated:
  assumes "before_assembly L a w = (Inr (valid, processed), w')"
  shows "1 \<le> length processed \<and> length processed = length valid
         \<and> list_all2 (\<lambda>p img. process_image_body L w p (quality a) = Inr img) valid processed
         \<and> (\<exists>imgs. fst (collect L a w) = Inr imgs \<and> valid = filter (accepted L w) imgs)
         \<and> main L a w = assemble L a valid processed w'
         \<and> (\<forall>n w''. save_pdf L (output_path a) processed w' = (None, w'') \<and>
                pil_encode_pdf L processed = Inr n \<longrightarrow>
                map_option content (files w'' (resolve L w' (output_path a))) =
                  Some (PdfDocument processed n))
         \<and> (\<forall>w4. save_pdf L (output_path a) processed w' = (None, w4) \<longrightarrow>
               (\<exists>n. pil_encode_pdf L processed = Inr n \<and>
                  files w4 = (files w)(resolve L w (output_path a) \<mapsto>
                     \<lparr>mtime = clock w, content = PdfDocument processed n\<rparr>) \<and>
                  main L a w =
                    (if remove_source a
                     then (case remove_all L valid w4 of
                             (Some e, w5) \<Rightarrow>
                               (Exit 1, w5\<lparr>console := console w' @
                                  [(Stdout, Created (output_path a) n),
                                   (Stderr, SavePdfError e)]\<rparr>)
                           | (None, w5) \<Rightarrow>
                               (Exit 0, w5\<lparr>console := console w' @
                                  [(Stdout, Created (output_path a) n),
                                   (Stdout, SourcesRemoved)]\<rparr>))
                     else (Exit 0, w4\<lparr>console := console w' @
                                  [(Stdout, Created (output_path a) n)]\<rparr>))))
         \<and> (\<forall>w_end. main L a w = (Exit 0, w_end) \<longrightarrow>
               (\<exists>n. pil_encode_pdf L processed = Inr n \<and>
                  files w_end =
                    (\<lambda>r. if remove_source a \<and> r \<in> resolve L w ` set valid then None
                         else if r = resolve L w (output_path a)
                         then Some \<lparr>mtime = clock w, content = PdfDocument processed n\<rparr>
                         else files w r)))"
proof -
  from assms obtain imgs w1 where c: "collect L a w = (Inr imgs, w1)"
    by (auto simp: before_assembly_def split: prod.splits sum.splits)
  from assms c obtain w2 where v: "validate L (verbose a) imgs w1 = (Inr valid, w2)"
    by (auto simp: before_assembly_def split: prod.splits sum.splits if_splits)
  from assms c v have t: "transcode L a valid w2 = (Inr processed, w')" and "\<not> dry_run a"
    by (auto simp: before_assembly_def split: prod.splits sum.splits if_splits)
  have e1: "echoed_only w w1" using collect_echoed[of w L a] c by simp
  have e2: "echoed_only w1 w2" using validate_echoed[of w1 L "verbose a" imgs] v by simp
  have e: "echoed_only w w2" by (rule echoed_only_trans[OF e1 e2])
  have e': "echoed_only w w'" using before_assembly_echoed[of w L a] assms by simp
  note same = echoed_only_reads(4,5,9)[OF e']
  from t have loop: "transcode_loop L (quality a) (verbose a) 1 valid []
      (w2\<lparr>console := console w2\<rparr>) = (Inr processed, w')" and ne: "processed \<noteq> []"
    by (auto simp: transcode_def split: prod.splits sum.splits if_splits)
  from transcode_loop_Inr[OF loop]
  have all: "list_all2 (\<lambda>p img. process_image_body L w2 p (quality a) = Inr img) valid processed"
    by simp
  then have all': "list_all2 (\<lambda>p img. process_image_body L w p (quality a) = Inr img)
      valid processed"
    by (simp add: echoed_only_reads(3)[OF e])
  have valid: "valid = filter (accepted L w) imgs"
    using validate_Inr(1)[OF v] echoed_only_reads(1)[OF e1] by simp
  have m: "main L a w = assemble L a valid processed w'"
    using assms by (simp add: main_def)
  have doc: "\<forall>n w''. save_pdf L (output_path a) processed w' = (None, w'') \<and>
                pil_encode_pdf L processed = Inr n \<longrightarrow>
                map_option content (files w'' (resolve L w' (output_path a))) =
                  Some (PdfDocument processed n)"
    by (auto simp: save_pdf_def Let_def split: if_splits sum.splits)
  have written: "\<forall>w4. save_pdf L (output_path a) processed w' = (None, w4) \<longrightarrow>
               (\<exists>n. pil_encode_pdf L processed = Inr n \<and>
                  files w4 = (files w)(resolve L w (output_path a) \<mapsto>
                     \<lparr>mtime = clock w, content = PdfDocument processed n\<rparr>) \<and>
                  main L a w =
                    (if remove_source a
                     then (case remove_all L valid w4 of
                             (Some e, w5) \<Rightarrow>
                               (Exit 1, w5\<lparr>console := console w' @
                                  [(Stdout, Created (output_path a) n),
                                   (Stderr, SavePdfError e)]\<rparr>)
                           | (None, w5) \<Rightarrow>
                               (Exit 0, w5\<lparr>console := console w' @
                                  [(Stdout, Created (output_path a) n),
                                   (Stdout, SourcesRemoved)]\<rparr>))
                     else (Exit 0, w4\<lparr>console := console w' @
                                  [(Stdout, Created (output_path a) n)]\<rparr>)))"
  proof (intro allI impI)
    fix w4 assume s: "save_pdf L (output_path a) processed w' = (None, w4)"
    from assemble_after_write[OF s ne, where valid = valid] show
      "\<exists>n. pil_encode_pdf L processed = Inr n \<and>
                  files w4 = (files w)(resolve L w (output_path a) \<mapsto>
                     \<lparr>mtime = clock w, content = PdfDocument processed n\<rparr>) \<and>
                  main L a w =
                    (if remove_source a
                     then (case remove_all L valid w4 of
                             (Some e, w5) \<Rightarrow>
                               (Exit 1, w5\<lparr>console := console w' @
                                  [(Stdout, Created (output_path a) n),
                                   (Stderr, SavePdfError e)]\<rparr>)
                           | (None, w5) \<Rightarrow>
                               (Exit 0, w5\<lparr>console := console w' @
                                  [(Stdout, Created (output_path a) n),
                                   (Stdout, SourcesRemoved)]\<rparr>))
                     else (Exit 0, w4\<lparr>console := console w' @
                                  [(Stdout, Created (output_path a) n)]\<rparr>))"
      unfolding m same by blast
  qed
  have ended: "\<forall>w_end. main L a w = (Exit 0, w_end) \<longrightarrow>
               (\<exists>n. pil_encode_pdf L processed = Inr n \<and>
                  files w_end =
                    (\<lambda>r. if remove_source a \<and> r \<in> resolve L w ` set valid then None
                         else if r = resolve L w (output_path a)
                         then Some \<lparr>mtime = clock w, content = PdfDocument processed n\<rparr>
                         else files w r))"
  proof (intro allI impI)
    fix w_end assume "main L a w = (Exit 0, w_end)"
    with m have "assemble L a valid processed w' = (Exit 0, w_end)" by simp
    from assemble_Exit0[OF this ne] show
      "\<exists>n. pil_encode_pdf L processed = Inr n \<and>
                  files w_end =
                    (\<lambda>r. if remove_source a \<and> r \<in> resolve L w ` set valid then None
                         else if r = resolve L w (output_path a)
                         then Some \<lparr>mtime = clock w, content = PdfDocument processed n\<rparr>
                         else files w r)"
      unfolding same .
  qed
  have len: "1 \<le> length processed \<and> length processed = length valid"
    using ne list_all2_lengthD[OF all'] by (cases processed) auto
  have col: "\<exists>imgs. fst (collect L a w) = Inr imgs \<and> valid = filter (accepted L w) imgs"
    using c valid by auto
  from len all' col m doc written ended show ?thesis by blast
qed


text \<open>The run on \<^verbatim>\<open>a.png\<close> and \<^verbatim>\<open>b.jpg\<close>: it ends with status 0 and leaves a document
  of two pages, in that order; the sources are still there.\<close>

theorem assembler_input_matches_validated_witness:
  "list_all2 (\<lambda>p img. process_image_body sample_library sample_world p 80 = Inr img)
     [''/w/a.png'', ''/w/b.jpg'']
     [\<lparr>format = Some ''JPEG'', mode = ''RGB'', payload = [7]\<rparr>,
      \<lparr>format = Some ''JPEG'', mode = ''RGB'', payload = [8]\<rparr>]
   \<and> fst (main sample_library sample_args sample_world) = Exit 0
   \<and> map (files (snd (main sample_library sample_args sample_world)))
         [''/w/out.pdf'', ''/w/a.png'', ''/w/b.jpg''] =
       [Some \<lparr>mtime = 100, content = PdfDocument
              [\<lparr>format = Some ''JPEG'', mode = ''RGB'', payload = [7]\<rparr>,
               \<lparr>format = Some ''JPEG'', mode = ''RGB'', payload = [8]\<rparr>] 2\<rparr>,
        Some \<lparr>mtime = 30, content = Bytes [1, 1, 7]\<rparr>,
        Some \<lparr>mtime = 10, content = Bytes [2, 0, 8]\<rparr>]"
proof -
  let ?imgs = "[\<lparr>format = Some ''JPEG'', mode = ''RGB'', payload = [7]\<rparr>,
                \<lparr>format = Some ''JPEG'', mode = ''RGB'', payload = [8::nat]\<rparr>]"
  let ?W = "snd (main sample_library sample_args sample_world)"
  have b: "before_assembly sample_library sample_args sample_world =
      (Inr ([''/w/a.png'', ''/w/b.jpg''], ?imgs), sample_world)"
    by (simp add: before_assembly_def run_defs validator_defs sample_defs)
  have q: "quality sample_args = 80" and rs: "\<not> remove_source sample_args"
    by (simp_all add: sample_args_def)
  have m0: "fst (main sample_library sample_args sample_world) = Exit 0"
    by (simp add: main_def b)
       (simp add: run_defs resolve_def sample_defs)
  then have m: "main sample_library sample_args sample_world = (Exit 0, ?W)"
    by (simp add: prod_eq_iff)
  note t = assembler_input_matches_validated[OF b]
  note pages = t[THEN conjunct2, THEN conjunct2, THEN conjunct1, unfolded q]
  note ended = t[THEN conjunct2, THEN conjunct2, THEN conjunct2, THEN conjunct2,
      THEN conjunct2, THEN conjunct2, THEN conjunct2, rule_format, OF m]
  from ended obtain n where n: "pil_encode_pdf sample_library ?imgs = Inr n"
    and f: "files ?W =
       (\<lambda>r. if remove_source sample_args \<and>
                r \<in> resolve sample_library sample_world ` set [''/w/a.png'', ''/w/b.jpg'']
            then None
            else if r = resolve sample_library sample_world (output_path sample_args)
            then Some \<lparr>mtime = clock sample_world, content = PdfDocument ?imgs n\<rparr>
            else files sample_world r)"
    by blast
  from n have n2: "n = 2" by (simp add: sample_library_def)
  have "map (files ?W) [''/w/out.pdf'', ''/w/a.png'', ''/w/b.jpg''] =
       [Some \<lparr>mtime = 100, content = PdfDocument ?imgs 2\<rparr>,
        Some \<lparr>mtime = 30, content = Bytes [1, 1, 7]\<rparr>,
        Some \<lparr>mtime = 10, content = Bytes [2, 0, 8]\<rparr>]"
    unfolding f n2 by (simp add: resolve_def sample_defs)
  with pages m0 show ?thesis by simp
qed

text \<open>
  Claim C9, as stated: with \<^verbatim>\<open>-r\<close>, once the PDF is written exactly the validated
  paths are deleted and the output PDF is left intact. Neither holds on every run.
  When the output path is itself a validated path, the document is written over the
  image and then removed with the sources, and the run ends with status 0. When a
  removal raises, the paths after the failing one are not deleted: here the write
  succeeded and \<^verbatim>\<open>b.jpg\<close>, a validated path, is still there.
\<close>

theorem output_removed_with_sources:
  "fst (main sample_library
          (sample_args\<lparr>images := [''a.png''], output_path := ''/w/a.png'',
             remove_source := True\<rparr>) sample_world) = Exit 0
   \<and> files (snd (main sample_library
          (sample_args\<lparr>images := [''a.png''], output_path := ''/w/a.png'',
             remove_source := True\<rparr>) sample_world)) ''/w/a.png'' = None
   \<and> fst (main sample_library
          (sample_args\<lparr>images := [''a.png'', ''g.png'', ''b.jpg''], remove_source := True\<rparr>)
          (locked_world ''/w/g.png'')) = Exit 1
   \<and> map_option content (files (snd (main sample_library
          (sample_args\<lparr>images := [''a.png'', ''g.png'', ''b.jpg''], remove_source := True\<rparr>)
          (locked_world ''/w/g.png''))) ''/w/out.pdf'') =
       Some (PdfDocument
              [\<lparr>format = Some ''JPEG'', mode = ''RGB'', payload = [7]\<rparr>,
               \<lparr>format = Some ''JPEG'', mode = ''RGB'', payload = [5]\<rparr>,
               \<lparr>format = Some ''JPEG'', mode = ''RGB'', payload = [8]\<rparr>] 3)
   \<and> files (snd (main sample_library
          (sample_args\<lparr>images := [''a.png'', ''g.png'', ''b.jpg''], remove_source := True\<rparr>)
          (locked_world ''/w/g.png''))) ''/w/b.jpg'' =
       Some \<lparr>mtime = 10, content = Bytes [2, 0, 8]\<rparr>"
  by (simp add: main_def before_assembly_def run_defs validator_defs sample_defs
      locked_world_def)

text \<open>
  Claim C9, amended: with \<^verbatim>\<open>-r\<close>, on a run that reaches the assembler and ends with
  status 0 (the PDF was written and every removal succeeded), exactly the validated
  paths are deleted: each of them is gone, every other file is as it was, and the
  output path holds the document, unless it is itself one of the validated paths.
  And whatever the run, a file that was there before and is gone after was deleted
  with \<^verbatim>\<open>-r\<close> after the PDF write had succeeded.
\<close>

theorem sources_removed_after_write:
  "(\<forall>valid processed w3 w'.
      before_assembly L a w = (Inr (valid, processed), w3) \<and> remove_source a \<and>
      main L a w = (Exit 0, w') \<longrightarrow>
      (\<exists>n. pil_encode_pdf L processed = Inr n \<and> files w' =
         (\<lambda>r. if r \<in> resolve L w ` set valid then None
              else if r = resolve L w (output_path a)
              then Some \<lparr>mtime = clock w, content = PdfDocument processed n\<rparr>
              else files w r)))
   \<and> ((\<exists>r. files w r \<noteq> None \<and> files (snd (main L a w)) r = None) \<longrightarrow>
        remove_source a \<and>
        (\<exists>valid processed w3 w4.
           before_assembly L a w = (Inr (valid, processed), w3) \<and>
           save_pdf L (output_path a) processed w3 = (None, w4)))"
proof (rule conjI; intro allI impI)
  fix valid processed w3 w'
  assume h: "before_assembly L a w = (Inr (valid, processed), w3) \<and> remove_source a \<and>
      main L a w = (Exit 0, w')"
  then have b: "before_assembly L a w = (Inr (valid, processed), w3)" and rs: "remove_source a"
    and m: "assemble L a valid processed w3 = (Exit 0, w')"
    by (auto simp: main_def)
  have e: "echoed_only w w3" using before_assembly_echoed[of w L a] b by simp
  note same = echoed_only_reads(4,5,9)[OF e]
  have ne: "processed \<noteq> []"
    using b by (auto simp: before_assembly_def transcode_def
        split: prod.splits sum.splits if_splits)
  from m obtain w4 where s: "save_pdf L (output_path a) processed w3 = (None, w4)"
    by (cases "save_pdf L (output_path a) processed w3")
       (auto simp: assemble_def write_and_remove_def Let_def
          split: list.splits prod.splits option.splits sum.splits if_splits)
  obtain x w5 where r0: "remove_all L valid w4 = (x, w5)"
    by (cases "remove_all L valid w4")
  from assemble_after_write[OF s ne, where valid = valid] obtain n
    where n: "pil_encode_pdf L processed = Inr n" and f4: "files w4 = (files w3)(resolve L w3 (output_path a) \<mapsto>
                  \<lparr>mtime = clock w3, content = PdfDocument processed n\<rparr>)"
      and asm: "assemble L a valid processed w3 =
        (case x of
           Some e \<Rightarrow> (Exit 1, w5\<lparr>console := console w3 @
                     [(Stdout, Created (output_path a) n), (Stderr, SavePdfError e)]\<rparr>)
         | None \<Rightarrow> (Exit 0, w5\<lparr>console := console w3 @
                     [(Stdout, Created (output_path a) n), (Stdout, SourcesRemoved)]\<rparr>))"
    using rs r0 by auto
  from asm m have r: "remove_all L valid w4 = (None, w5)" and f': "files w' = files w5"
    using r0 by (cases x; auto)+
  have r4: "resolve L w4 = resolve L w3"
    using save_pdf_None[OF s] by (auto simp: fun_eq_iff)
  from remove_all_None[OF r]
  have "files w5 = (\<lambda>r. if r \<in> resolve L w4 ` set valid then None else files w4 r)"
    by simp
  with f' f4 r4 same
  have "files w' =
         (\<lambda>r. if r \<in> resolve L w ` set valid then None
              else if r = resolve L w (output_path a)
              then Some \<lparr>mtime = clock w, content = PdfDocument processed n\<rparr>
              else files w r)"
    by (auto simp: fun_eq_iff)
  with n show "\<exists>n. pil_encode_pdf L processed = Inr n \<and> files w' =
         (\<lambda>r. if r \<in> resolve L w ` set valid then None
              else if r = resolve L w (output_path a)
              then Some \<lparr>mtime = clock w, content = PdfDocument processed n\<rparr>
              else files w r)" by blast
next
  assume "\<exists>r. files w r \<noteq> None \<and> files (snd (main L a w)) r = None"
  then obtain r where r: "files w r \<noteq> None" and gone: "files (snd (main L a w)) r = None"
    by blast
  obtain res w3 where b: "before_assembly L a w = (res, w3)"
    by (cases "before_assembly L a w")
  have e: "echoed_only w w3" using before_assembly_echoed[of w L a] b by simp
  have f3: "files w3 = files w" by (rule echoed_only_reads(5)[OF e])
  show "remove_source a \<and>
        (\<exists>valid processed w3 w4.
           before_assembly L a w = (Inr (valid, processed), w3) \<and>
           save_pdf L (output_path a) processed w3 = (None, w4))"
  proof (cases res)
    case (Inl out)
    with b gone r f3 show ?thesis by (simp add: main_def)
  next
    case (Inr vp)
    obtain valid processed where vp: "vp = (valid, processed)" by (cases vp)
    from b Inr vp gone have "files (snd (assemble L a valid processed w3)) r = None"
      by (simp add: main_def)
    from assemble_deletes_only_after_write[OF _ this] r f3 b Inr vp show ?thesis by auto
  qed
qed

text \<open>The run on \<^verbatim>\<open>a.png\<close> and \<^verbatim>\<open>b.jpg\<close> with \<^verbatim>\<open>-r\<close>: both are gone, \<^verbatim>\<open>g.png\<close> is
  untouched, the document is there.\<close>

theorem sources_removed_after_write_witness:
  "files (snd (main sample_library
          (sample_args\<lparr>images := [''a.png'', ''b.jpg''], remove_source := True\<rparr>)
          sample_world)) ''/w/a.png'' = None
   \<and> files (snd (main sample_library
          (sample_args\<lparr>images := [''a.png'', ''b.jpg''], remove_source := True\<rparr>)
          sample_world)) ''/w/b.jpg'' = None
   \<and> files (snd (main sample_library
          (sample_args\<lparr>images := [''a.png'', ''b.jpg''], remove_source := True\<rparr>)
          sample_world)) ''/w/g.png'' = Some \<lparr>mtime = 15, content = Bytes [1, 0, 5]\<rparr>
   \<and> files (snd (main sample_library
          (sample_args\<lparr>images := [''a.png'', ''b.jpg''], remove_source := True\<rparr>)
          sample_world)) ''/w/out.pdf'' =
       Some \<lparr>mtime = 100, content = PdfDocument
              [\<lparr>format = Some ''JPEG'', mode = ''RGB'', payload = [7]\<rparr>,
               \<lparr>format = Some ''JPEG'', mode = ''RGB'', payload = [8]\<rparr>] 2\<rparr>"
proof -
  let ?a = "sample_args\<lparr>images := [''a.png'', ''b.jpg''], remove_source := True\<rparr>"
  let ?imgs = "[\<lparr>format = Some ''JPEG'', mode = ''RGB'', payload = [7]\<rparr>,
                \<lparr>format = Some ''JPEG'', mode = ''RGB'', payload = [8::nat]\<rparr>]"
  let ?W = "snd (main sample_library ?a sample_world)"
  have b: "before_assembly sample_library ?a sample_world =
      (Inr ([''/w/a.png'', ''/w/b.jpg''], ?imgs), sample_world)"
    by (simp add: before_assembly_def run_defs validator_defs sample_defs)
  have rs: "remove_source ?a" by simp
  have "fst (main sample_library ?a sample_world) = Exit 0"
    by (simp add: main_def b)
       (simp add: run_defs resolve_def sample_defs)
  then have m: "main sample_library ?a sample_world = (Exit 0, ?W)"
    by (simp add: prod_eq_iff)
  from sources_removed_after_write[of sample_library ?a sample_world, THEN conjunct1,
      rule_format, OF conjI[OF b conjI[OF rs m]]]
  obtain n where n: "pil_encode_pdf sample_library ?imgs = Inr n"
    and f: "files ?W =
         (\<lambda>r. if r \<in> resolve sample_library sample_world ` set [''/w/a.png'', ''/w/b.jpg'']
              then None
              else if r = resolve sample_library sample_world (output_path ?a)
              then Some \<lparr>mtime = clock sample_world, content = PdfDocument ?imgs n\<rparr>
              else files sample_world r)"
    by blast
  from n have n2: "n = 2" by (simp add: sample_library_def)
  show ?thesis
    unfolding f n2 by (simp add: resolve_def sample_defs)
qed

text \<open>
  Claim C10, as stated: when a removal raises after the PDF was written, the sources
  removed before stay deleted and the output PDF remains on disk. When the output
  path is one of the sources removed before the failing one, the document does not
  remain: it was written over \<^verbatim>\<open>a.png\<close> and removed before \<^verbatim>\<open>b.jpg\<close> failed.
\<close>

theorem output_removed_before_failure:
  "main sample_library
     (sample_args\<lparr>images := [''a.png'', ''b.jpg''], output_path := ''/w/a.png'',
        remove_source := True\<rparr>) (locked_world ''/w/b.jpg'') =
   (Exit 1,
    (locked_world ''/w/b.jpg'')
      \<lparr>files := (files sample_world)(''/w/a.png'' := None),
       console := [(Stdout, Created ''/w/a.png'' 2), (Stderr, SavePdfError IOError)]\<rparr>)"
  by (simp add: main_def before_assembly_def run_defs validator_defs sample_defs
      locked_world_def fun_eq_iff)

text \<open>
  Claim C10, amended: if the PDF write succeeds and, with \<^verbatim>\<open>-r\<close>, the removal of the
  validated path \<open>p\<close> raises after the paths \<open>pre\<close> before it were removed, the run
  ends with status 1 and the diagnostic of the PDF-save handler; the paths of \<open>pre\<close>
  are gone and stay so, every other file is as it was (the paths after \<open>p\<close> are
  not removed), and the output path holds the document unless it is itself one of
  \<open>pre\<close>. Nothing is rolled back.
\<close>

theorem removal_failure_keeps_earlier_removals:
  assumes "before_assembly L a w = (Inr (valid, processed), w3)"
    and "remove_source a"
    and "save_pdf L (output_path a) processed w3 = (None, w4)"
    and "valid = pre @ p # post"
    and "remove_all L pre w4 = (None, w5)"
    and "os_remove L p w5 = Inl e"
  shows "\<exists>n. pil_encode_pdf L processed = Inr n \<and> main L a w =
           (Exit 1, w5\<lparr>console := console w3 @
              [(Stdout, Created (output_path a) n), (Stderr, SavePdfError e)]\<rparr>)
         \<and> files w5 =
             (\<lambda>r. if r \<in> resolve L w ` set pre then None
                  else if r = resolve L w (output_path a)
                  then Some \<lparr>mtime = clock w, content = PdfDocument processed n\<rparr>
                  else files w r)"
proof -
  have ev: "echoed_only w w3" using before_assembly_echoed[of w L a] assms(1) by simp
  note same = echoed_only_reads(4,5,9)[OF ev]
  have ne: "processed \<noteq> []"
    using assms(1) by (auto simp: before_assembly_def transcode_def
        split: prod.splits sum.splits if_splits)
  have stop: "remove_all L valid w4 = (Some e, w5)"
    unfolding assms(4) by (rule remove_all_stops[OF assms(5,6)])
  from assemble_after_write[OF assms(3) ne, where valid = valid] assms(2) stop obtain n
    where n: "pil_encode_pdf L processed = Inr n" and f4: "files w4 = (files w3)(resolve L w3 (output_path a) \<mapsto>
                  \<lparr>mtime = clock w3, content = PdfDocument processed n\<rparr>)"
      and m: "assemble L a valid processed w3 =
           (Exit 1, w5\<lparr>console := console w3 @
              [(Stdout, Created (output_path a) n), (Stderr, SavePdfError e)]\<rparr>)"
    by auto
  have r4: "resolve L w4 = resolve L w3"
    using save_pdf_None[OF assms(3)] by (auto simp: fun_eq_iff)
  from remove_all_None[OF assms(5)]
  have "files w5 = (\<lambda>r. if r \<in> resolve L w4 ` set pre then None else files w4 r)"
    by simp
  with f4 r4 same
  have "files w5 =
             (\<lambda>r. if r \<in> resolve L w ` set pre then None
                  else if r = resolve L w (output_path a)
                  then Some \<lparr>mtime = clock w, content = PdfDocument processed n\<rparr>
                  else files w r)"
    by (auto simp: fun_eq_iff)
  with n m assms(1) show ?thesis by (auto simp: main_def)
qed


text \<open>Three sources of which the second cannot be deleted: the first is gone, the
  other two and the document are there.\<close>

theorem removal_failure_keeps_earlier_removals_witness:
  "fst (main sample_library
          (sample_args\<lparr>images := [''a.png'', ''g.png'', ''b.jpg''], remove_source := True\<rparr>)
          (locked_world ''/w/g.png'')) = Exit 1
   \<and> console (snd (main sample_library
          (sample_args\<lparr>images := [''a.png'', ''g.png'', ''b.jpg''], remove_source := True\<rparr>)
          (locked_world ''/w/g.png''))) =
       [(Stdout, Created ''/w/out.pdf'' 3), (Stderr, SavePdfError IOError)]
   \<and> map (files (snd (main sample_library
          (sample_args\<lparr>images := [''a.png'', ''g.png'', ''b.jpg''], remove_source := True\<rparr>)
          (locked_world ''/w/g.png''))))
         [''/w/a.png'', ''/w/g.png'', ''/w/b.jpg'', ''/w/out.pdf''] =
       [None, Some \<lparr>mtime = 15, content = Bytes [1, 0, 5]\<rparr>,
        Some \<lparr>mtime = 10, content = Bytes [2, 0, 8]\<rparr>,
        Some \<lparr>mtime = 100, content = PdfDocument
              [\<lparr>format = Some ''JPEG'', mode = ''RGB'', payload = [7]\<rparr>,
               \<lparr>format = Some ''JPEG'', mode = ''RGB'', payload = [5]\<rparr>,
               \<lparr>format = Some ''JPEG'', mode = ''RGB'', payload = [8]\<rparr>] 3\<rparr>]"
proof -
  let ?a = "sample_args\<lparr>images := [''a.png'', ''g.png'', ''b.jpg''], remove_source := True\<rparr>"
  let ?imgs = "[\<lparr>format = Some ''JPEG'', mode = ''RGB'', payload = [7]\<rparr>,
                \<lparr>format = Some ''JPEG'', mode = ''RGB'', payload = [5]\<rparr>,
                \<lparr>format = Some ''JPEG'', mode = ''RGB'', payload = [8::nat]\<rparr>]"
  let ?w = "locked_world ''/w/g.png''"
  let ?w4 = "snd (save_pdf sample_library (output_path ?a) ?imgs ?w)"
  let ?w5 = "snd (remove_all sample_library [''/w/a.png''] ?w4)"
  have b: "before_assembly sample_library ?a ?w =
      (Inr ([''/w/a.png''] @ ''/w/g.png'' # [''/w/b.jpg''], ?imgs), ?w)"
    by (simp add: before_assembly_def run_defs validator_defs sample_defs locked_world_def)
  have rs: "remove_source ?a" by simp
  have "fst (save_pdf sample_library (output_path ?a) ?imgs ?w) = None"
    by (simp add: run_defs resolve_def sample_defs locked_world_def)
  then have s: "save_pdf sample_library (output_path ?a) ?imgs ?w = (None, ?w4)"
    by (simp add: prod_eq_iff)
  have "fst (remove_all sample_library [''/w/a.png''] ?w4) = None"
    by (simp add: run_defs resolve_def sample_defs locked_world_def)
  then have r: "remove_all sample_library [''/w/a.png''] ?w4 = (None, ?w5)"
    by (simp add: prod_eq_iff)
  have p: "os_remove sample_library ''/w/g.png'' ?w5 = Inl IOError"
    by (simp add: run_defs resolve_def sample_defs locked_world_def)
  from removal_failure_keeps_earlier_removals[OF b rs s refl r p]
  obtain n where n: "pil_encode_pdf sample_library ?imgs = Inr n"
    and m: "main sample_library ?a ?w =
           (Exit 1, ?w5\<lparr>console := console ?w @
              [(Stdout, Created (output_path ?a) n), (Stderr, SavePdfError IOError)]\<rparr>)"
    and f: "files ?w5 =
             (\<lambda>r. if r \<in> resolve sample_library ?w ` set [''/w/a.png''] then None
                  else if r = resolve sample_library ?w (output_path ?a)
                  then Some \<lparr>mtime = clock ?w, content = PdfDocument ?imgs n\<rparr>
                  else files ?w r)"
    by blast
  from n have n3: "n = 3" by (simp add: sample_library_def)
  have c: "console ?w = []" by (simp add: locked_world_def sample_world_def)
  have "fst (main sample_library ?a ?w) = Exit 1"
    and "console (snd (main sample_library ?a ?w)) =
       [(Stdout, Created ''/w/out.pdf'' 3), (Stderr, SavePdfError IOError)]"
    and "files (snd (main sample_library ?a ?w)) = files ?w5"
    unfolding m n3 c by (simp_all add: sample_args_def)
  then show ?thesis
    unfolding f n3 by (simp add: resolve_def sample_defs locked_world_def)
qed

subsection \<open>The transcoder\<close>

text \<open>
  What the transcoder returns is of mode \<^verbatim>\<open>RGB\<close>; an image of mode \<^verbatim>\<open>RGBA\<close> or \<^verbatim>\<open>P\<close>
  is converted before it is re-encoded; an image of any other mode goes to the JPEG
  writer as it was decoded.
\<close>

lemma convert_RGB_mode: "convert_RGB L img = Inr img' \<Longrightarrow> mode img' = ''RGB''"
  by (auto simp: convert_RGB_def split: sum.splits)

lemma process_image_body_mode:
  assumes "process_image_body L w p q = Inr img"
  shows "mode img = ''RGB''"
proof -
  from assms obtain img2 where
    last: "(if mode img2 \<noteq> ''RGB'' then convert_RGB L img2 else Inr img2) = Inr img"
    by (auto simp: process_image_body_def split: sum.splits)
  show ?thesis
  proof (cases "mode img2 = ''RGB''")
    case True
    with last show ?thesis by simp
  next
    case False
    with last show ?thesis by (simp add: convert_RGB_mode)
  qed
qed

lemma process_image_body_converts_first:
  assumes "Image_open L w p = Inr img" and "mode img = ''RGBA'' \<or> mode img = ''P''"
  shows "process_image_body L w p q =
     (case convert_RGB L img of
        Inl e \<Rightarrow> Inl e
      | Inr rgb \<Rightarrow>
          (case (if q \<noteq> 0 then reencode L rgb q else Inr rgb) of
             Inl e \<Rightarrow> Inl e
           | Inr img2 \<Rightarrow> if mode img2 \<noteq> ''RGB'' then convert_RGB L img2 else Inr img2))"
  using assms by (auto simp: process_image_body_def split: sum.splits)

lemma process_image_body_unconverted:
  assumes "Image_open L w p = Inr img" and "mode img \<noteq> ''RGBA''" and "mode img \<noteq> ''P''"
    and "q \<noteq> 0"
  shows "process_image_body L w p q =
     (case pil_encode_jpeg L img q of
        Inl e \<Rightarrow> Inl e
      | Inr buffer \<Rightarrow>
          (case pil_decode L buffer of
             Inl e \<Rightarrow> Inl e
           | Inr img2 \<Rightarrow> if mode img2 \<noteq> ''RGB'' then convert_RGB L img2 else Inr img2))"
  using assms by (auto simp: process_image_body_def reencode_def split: sum.splits)

text \<open>
  Claim C4: whenever the decoded color model includes an alpha channel or a palette
  it is converted to \<^verbatim>\<open>RGB\<close> before the re-encode, and the transcoder returns an
  \<^verbatim>\<open>RGB\<close> image for every validated path. The comment of line 32 says the same, but
  the test names \<^verbatim>\<open>RGBA\<close> and \<^verbatim>\<open>P\<close> only. A grey PNG with an alpha channel decodes
  with mode \<^verbatim>\<open>LA\<close>: the validator accepts it, the transcoder does not convert it and
  hands it, alpha channel included, to the JPEG writer, which does not write that
  mode; the run ends with status 1.
\<close>

theorem grey_alpha_image_not_converted:
  "is_image_file sample_library sample_world ''/x/d.png'' = Inr True
   \<and> Image_open sample_library sample_world ''/x/d.png'' =
       Inr \<lparr>format = Some ''PNG'', mode = ''LA'', payload = [6]\<rparr>
   \<and> has_alpha_or_palette ''LA''
   \<and> process_image_body sample_library sample_world ''/x/d.png'' 80 =
       (case pil_encode_jpeg sample_library
               \<lparr>format = Some ''PNG'', mode = ''LA'', payload = [6]\<rparr> 80 of
          Inl e \<Rightarrow> Inl e
        | Inr buffer \<Rightarrow>
            (case pil_decode sample_library buffer of
               Inl e \<Rightarrow> Inl e
             | Inr img2 \<Rightarrow>
                 if mode img2 \<noteq> ''RGB'' then convert_RGB sample_library img2 else Inr img2))
   \<and> process_image sample_library ''/x/d.png'' 80 sample_world =
       (Inl (Exit 1),
        sample_world\<lparr>console := [(Stderr, ProcessImageError ''/x/d.png'' IOError)]\<rparr>)"
proof -
  have o: "Image_open sample_library sample_world ''/x/d.png'' =
       Inr \<lparr>format = Some ''PNG'', mode = ''LA'', payload = [6]\<rparr>"
    by (simp add: validator_defs sample_defs)
  have v: "is_image_file sample_library sample_world ''/x/d.png'' = Inr True"
    by (simp add: validator_defs sample_defs)
  have a: "has_alpha_or_palette ''LA''" by (simp add: has_alpha_or_palette_def)
  have b: "process_image_body sample_library sample_world ''/x/d.png'' 80 =
       (case pil_encode_jpeg sample_library
               \<lparr>format = Some ''PNG'', mode = ''LA'', payload = [6]\<rparr> 80 of
          Inl e \<Rightarrow> Inl e
        | Inr buffer \<Rightarrow>
            (case pil_decode sample_library buffer of
               Inl e \<Rightarrow> Inl e
             | Inr img2 \<Rightarrow>
                 if mode img2 \<noteq> ''RGB'' then convert_RGB sample_library img2 else Inr img2))"
    by (rule process_image_body_unconverted[OF o]) simp_all
  have e: "pil_encode_jpeg sample_library
               \<lparr>format = Some ''PNG'', mode = ''LA'', payload = [6]\<rparr> 80 = Inl IOError"
    by (simp add: sample_defs)
  have p: "process_image sample_library ''/x/d.png'' 80 sample_world =
       (Inl (Exit 1),
        sample_world\<lparr>console := [(Stderr, ProcessImageError ''/x/d.png'' IOError)]\<rparr>)"
    by (simp add: process_image_def b e echo_def sample_world_fields)
  from v o a b p show ?thesis by blast
qed

end
